theory Spec2Isabelle
  imports Main "HOL-Library.AList"
begin

section \<open>Extension management service\<close>

text \<open>
  A shallow embedding of \<^verbatim>\<open>ExtensionManagementService\<close>
  (\<^verbatim>\<open>vs/platform/extensionManagement/node/extensionManagementService.ts\<close>).
  Every definition keeps the name of the TypeScript function it is translated from.
  Embedded are the manifest reader, the Obsolete Index, the scanner, the install from
  a package file and from the registry, and the removal of an extension with its
  dependencies; the prompts of \<^verbatim>\<open>uninstall\<close> and the clean-up of
  \<^verbatim>\<open>removeDeprecatedExtensions\<close> are not.
\<close>

subsection \<open>Errors\<close>

text \<open>
  A JavaScript \<^verbatim>\<open>Error\<close> object: \<open>error_name\<close> stands for its class (the type of the
  error), \<open>message\<close> for its text and \<open>code\<close> for the code of a file-system error
  (\<^verbatim>\<open>ENOENT\<close>, ...). \<^verbatim>\<open>new Error(m)\<close> is \<open>new_Error m\<close>.
\<close>

record js_error =
  error_name :: string
  message :: string
  code :: "string option"

definition new_Error :: "string \<Rightarrow> js_error" where
  "new_Error m = \<lparr>error_name = ''Error'', message = m, code = None\<rparr>"

text \<open>An element of the array handed to \<^verbatim>\<open>joinErrors\<close>: \<^verbatim>\<open>Error | string\<close>.\<close>

datatype error_or_string = IsError js_error | IsString string

text \<open>
  \<^verbatim>\<open>currentValue instanceof Error ? currentValue.message : currentValue\<close>
\<close>

fun message_of :: "error_or_string \<Rightarrow> string" where
  "message_of (IsError e) = message e"
| "message_of (IsString s) = s"

text \<open>
  The callback of \<^verbatim>\<open>errors.reduce\<close> in \<^verbatim>\<open>joinErrors\<close>: the template string
  \<^verbatim>\<open>`${previousValue.message}${previousValue.message ? ',' : ''}${...}`\<close>.
  An empty string is falsy.
\<close>

definition joinErrors_step :: "js_error \<Rightarrow> error_or_string \<Rightarrow> js_error" where
  "joinErrors_step previousValue currentValue =
     new_Error (message previousValue
                @ (if message previousValue \<noteq> [] then '','' else [])
                @ message_of currentValue)"

text \<open>
  \<^verbatim>\<open>joinErrors\<close>. \<^verbatim>\<open>errors.reduce(f, init)\<close> is a left fold from \<^verbatim>\<open>init\<close>.
\<close>

definition joinErrors :: "error_or_string list \<Rightarrow> js_error" where
  "joinErrors errors =
     (case errors of
        [e] \<Rightarrow> (case e of IsError err \<Rightarrow> err | IsString s \<Rightarrow> new_Error s)
      | _ \<Rightarrow> foldl joinErrors_step (new_Error []) errors)"

text \<open>
  The words of the specification: messages concatenated with a separator between
  neighbours.
\<close>

fun concat_with :: "string \<Rightarrow> string list \<Rightarrow> string" where
  "concat_with sep [] = []"
| "concat_with sep [m] = m"
| "concat_with sep (m # m' # ms) = m @ sep @ concat_with sep (m' # ms)"


text \<open>
  An error code of the install events, \<^verbatim>\<open>ErrorCode\<close> of
  \<^verbatim>\<open>vs/platform/extensionManagement/common/extensionManagement\<close>. The declaration is
  not among the sources, so the three members the service uses are listed, and whether
  a member is truthy in a condition (a member whose value is 0 is not) is the
  parameter \<open>truthy\<close> of the collaborators below.
\<close>

datatype ErrorCode = OBSOLETE | GALLERY | LOCAL

text \<open>
  What a promise is rejected with: an \<^verbatim>\<open>Error\<close>, or the array of errors that
  \<^verbatim>\<open>TPromise.join\<close> rejects with.
\<close>

datatype rejection = Rejected js_error | RejectedAll "rejection list"

text \<open>\<^verbatim>\<open>err.code\<close>\<close>

fun rejection_code :: "rejection \<Rightarrow> string option" where
  "rejection_code (Rejected e) = code e"
| "rejection_code (RejectedAll es) = None"

text \<open>
  \<^verbatim>\<open>String(e)\<close>, the text a template string gives for a rejection:
  \<^verbatim>\<open>Error.prototype.toString\<close> for an error, the elements joined with commas for an
  array.
\<close>

definition error_toString :: "js_error \<Rightarrow> string" where
  "error_toString e =
     (if error_name e = [] then message e
      else if message e = [] then error_name e
      else error_name e @ '': '' @ message e)"

fun rejection_toString :: "rejection \<Rightarrow> string" where
  "rejection_toString (Rejected e) = error_toString e"
| "rejection_toString (RejectedAll es) = concat_with '','' (map rejection_toString es)"

text \<open>
  An element of a rejected array as \<^verbatim>\<open>joinErrors\<close> sees it: an \<^verbatim>\<open>Error\<close>
  is an \<^verbatim>\<open>Error\<close>; anything else is used through its text.
\<close>

fun as_error_or_string :: "rejection \<Rightarrow> error_or_string" where
  "as_error_or_string (Rejected e) = IsError e"
| "as_error_or_string (RejectedAll es) = IsString (rejection_toString (RejectedAll es))"

subsection \<open>JSON texts\<close>

text \<open>
  \<^verbatim>\<open>JSON.parse\<close> and \<^verbatim>\<open>JSON.stringify\<close> are built into the language. The text of a
  file is modelled up to JSON formatting: it is either the serialisation of a value
  of the type the reader expects (\<open>Json v\<close>), or a text on which \<^verbatim>\<open>JSON.parse\<close> throws
  a \<^verbatim>\<open>SyntaxError\<close> (\<open>NotJson s\<close>). \<open>JSON_parse\<close> returns \<open>None\<close> where
  \<^verbatim>\<open>JSON.parse\<close> throws.
\<close>

datatype 'a file_text = Json 'a | NotJson string

fun JSON_parse :: "'a file_text \<Rightarrow> 'a option" where
  "JSON_parse (Json v) = Some v"
| "JSON_parse (NotJson s) = None"

definition JSON_stringify :: "'a \<Rightarrow> 'a file_text" where
  "JSON_stringify v = Json v"

definition SyntaxError :: "js_error" where
  "SyntaxError = \<lparr>error_name = ''SyntaxError'', message = ''Unexpected token'', code = None\<rparr>"

subsection \<open>Data model\<close>

text \<open>\<^verbatim>\<open>IGalleryMetadata\<close>: \<^verbatim>\<open>{ id, publisherId, publisherDisplayName }\<close>.\<close>

record IGalleryMetadata =
  meta_id :: string
  meta_publisherId :: string
  meta_publisherDisplayName :: string

text \<open>
  \<^verbatim>\<open>IExtensionManifest\<close>, the object read from \<^verbatim>\<open>package.json\<close>. An optional field
  is an \<open>option\<close> (\<open>None\<close> is \<^verbatim>\<open>undefined\<close>); \<open>metadata_field\<close> is the reserved
  field \<^verbatim>\<open>__metadata\<close>.
\<close>

record IExtensionManifest =
  name :: string
  publisher :: string
  version :: string
  displayName :: "string option"
  extensionDependencies :: "string list option"
  metadata_field :: "IGalleryMetadata option"

text \<open>The texts of \<^verbatim>\<open>package.nls.json\<close>: key to text.\<close>

type_synonym nls_messages = "(string \<times> string) list"

datatype LocalExtensionType = System | User

text \<open>
  The two roots that hold extension directories: the fixed root of the built-in
  extensions and \<^verbatim>\<open>this.extensionsPath\<close>. \<^verbatim>\<open>path.join(root, id)\<close> is the pair
  \<open>(root, id)\<close>.
\<close>

datatype root = SystemExtensionsRoot | ExtensionsPath

type_synonym path = "root \<times> string"

text \<open>
  \<^verbatim>\<open>ILocalExtension\<close>. \<open>ext_type\<close> and \<open>ext_id\<close> are the fields \<^verbatim>\<open>type\<close> and
  \<^verbatim>\<open>id\<close>; the URLs are kept as the path of the file and its name.
\<close>

record ILocalExtension =
  ext_type :: LocalExtensionType
  ext_id :: string
  manifest :: IExtensionManifest
  metadata :: "IGalleryMetadata option"
  path :: path
  readmeUrl :: "(path \<times> string) option"
  changelogUrl :: "(path \<times> string) option"

text \<open>
  \<^verbatim>\<open>IGalleryExtension\<close>, an entry of the registry: the fields the service reads.
\<close>

record IGalleryExtension =
  uuid :: string
  identifier_id :: string
  gallery_version :: string
  publisherId :: string
  publisherDisplayName :: string

text \<open>\<^verbatim>\<open>InstallableExtension\<close>\<close>

record InstallableExtension =
  zipPath :: string
  installable_id :: string
  installable_metadata :: "IGalleryMetadata option"

text \<open>
  The Obsolete Index, \<^verbatim>\<open>{ [id: string]: boolean }\<close>: the keys of the object in their
  order, each with its value. \<^verbatim>\<open>obsolete[id] = v\<close> is \<open>AList.update id v\<close> (an existing
  key keeps its place, a new one goes last), \<^verbatim>\<open>delete obsolete[id]\<close> is
  \<open>AList.delete id\<close>, \<^verbatim>\<open>!!obsolete[id]\<close> is \<open>map_of obsolete id = Some True\<close> and
  \<^verbatim>\<open>Object.keys(obsolete).length === 0\<close> is \<open>obsolete = []\<close>.
\<close>

type_synonym obsolete = "(string \<times> bool) list"

subsection \<open>Files and events: the state\<close>

text \<open>
  The file \<^verbatim>\<open>.obsolete\<close>: missing, a readable file with its text, or something
  \<^verbatim>\<open>readFile\<close> fails on with the given code.
\<close>

datatype obsolete_file = NoFile | File "obsolete file_text" | Unreadable string

text \<open>
  An extension directory: its manifest file and its file of translated texts, when they
  exist, and the listing \<^verbatim>\<open>readdir\<close> gives.
\<close>

record dir =
  package_json :: "IExtensionManifest file_text option"
  package_nls_json :: "nls_messages file_text option"
  children :: "string list"

datatype source = FromZip string | FromGallery IGalleryExtension

text \<open>
  The four events. The third field of \<^verbatim>\<open>DidInstallExtensionEvent\<close> is its
  \<^verbatim>\<open>local\<close> (\<open>None\<close> is \<^verbatim>\<open>undefined\<close>) or its \<^verbatim>\<open>error\<close>, which is the rejection
  itself for a package file and an \<^verbatim>\<open>ErrorCode\<close> for a registry entry.
\<close>

datatype did_install = DidLocal "ILocalExtension option" | DidError rejection | DidErrorCode ErrorCode

datatype event =
    InstallExtension string source
  | DidInstallExtension string source did_install
  | UninstallExtension string
  | DidUninstallExtension string "ErrorCode option"

record state =
  obsoleteFile :: obsolete_file
  userExtensions :: "(string \<times> dir) list"
  systemExtensions :: "(string \<times> dir) list"
  events :: "event list"

subsection \<open>Collaborators\<close>

text \<open>
  What the service takes from outside this file, as parameters: the identifier
  functions of \<^verbatim>\<open>extensionManagementUtil\<close>, \<^verbatim>\<open>localizeManifest\<close>, the \<^verbatim>\<open>semver\<close>
  library (\<open>semver v\<close> is the parsed version, ordered by precedence, and \<open>None\<close> for
  a text that is no version, on which \<^verbatim>\<open>semver.rcompare\<close> throws), the archives on disk
  (\<open>zip_archive p\<close> is the content below \<^verbatim>\<open>extension/\<close> of the archive at \<open>p\<close>, \<open>None\<close> when
  there is no readable archive), the registry client, and the truth value of an
  \<^verbatim>\<open>ErrorCode\<close> in a condition.
\<close>

record 'v env =
  getLocalExtensionIdFromGallery :: "IGalleryExtension \<Rightarrow> string \<Rightarrow> string"
  getLocalExtensionIdFromManifest :: "IExtensionManifest \<Rightarrow> string"
  getGalleryExtensionIdFromLocal :: "ILocalExtension \<Rightarrow> string"
  adoptToGalleryExtensionId :: "string \<Rightarrow> string"
  localizeManifest :: "IExtensionManifest \<Rightarrow> nls_messages \<Rightarrow> IExtensionManifest"
  semver :: "string \<Rightarrow> 'v option"
  zip_archive :: "string \<Rightarrow> dir option"
  loadCompatibleVersion :: "IGalleryExtension \<Rightarrow> rejection + IGalleryExtension"
  getAllDependencies :: "IGalleryExtension \<Rightarrow> rejection + IGalleryExtension list"
  download :: "IGalleryExtension \<Rightarrow> rejection + string"
  reportStatistic :: "string \<Rightarrow> string \<Rightarrow> string \<Rightarrow> rejection + unit"
  truthy :: "ErrorCode \<Rightarrow> bool"

subsection \<open>Promises\<close>

text \<open>
  A \<^verbatim>\<open>TPromise<T>\<close> is run on a state and settles: it is rejected (\<open>Inl\<close>) or
  completes with a value (\<open>Inr\<close>), and leaves a state. What an operation did before it
  failed stays done.
\<close>

type_synonym 'a promise = "state \<Rightarrow> (rejection + 'a) \<times> state"

text \<open>\<^verbatim>\<open>TPromise.as(x)\<close> and \<^verbatim>\<open>TPromise.wrapError(e)\<close>\<close>

definition TPromise_as :: "'a \<Rightarrow> 'a promise" where
  "TPromise_as x = (\<lambda>s. (Inr x, s))"

definition TPromise_wrapError :: "rejection \<Rightarrow> 'a promise" where
  "TPromise_wrapError e = (\<lambda>s. (Inl e, s))"

text \<open>
  \<^verbatim>\<open>p.then(f)\<close>, \<^verbatim>\<open>p.then(f, g)\<close> and \<^verbatim>\<open>p.then(null, g)\<close>. The second callback
  sees a rejection of \<open>p\<close> only, not one of \<open>f\<close>.
\<close>

definition thenP :: "'a promise \<Rightarrow> ('a \<Rightarrow> 'b promise) \<Rightarrow> 'b promise" where
  "thenP p f = (\<lambda>s. case p s of (Inl e, s') \<Rightarrow> (Inl e, s') | (Inr x, s') \<Rightarrow> f x s')"

definition thenP2 :: "'a promise \<Rightarrow> ('a \<Rightarrow> 'b promise) \<Rightarrow> (rejection \<Rightarrow> 'b promise) \<Rightarrow> 'b promise" where
  "thenP2 p f g = (\<lambda>s. case p s of (Inl e, s') \<Rightarrow> g e s' | (Inr x, s') \<Rightarrow> f x s')"

definition otherwise :: "'a promise \<Rightarrow> (rejection \<Rightarrow> 'a promise) \<Rightarrow> 'a promise" where
  "otherwise p g = (\<lambda>s. case p s of (Inl e, s') \<Rightarrow> g e s' | (Inr x, s') \<Rightarrow> (Inr x, s'))"

text \<open>
  Modelled from the spec: \<^verbatim>\<open>TPromise.join\<close> (\<^verbatim>\<open>vs/base/common/winjs.base\<close>) is not
  among the sources. The spec: batch operations are fire-and-join, "all sub-operations
  are started without waiting for prior ones, and the aggregate operation completes only
  when every sub-operation has completed, successfully or not", and a failed join has
  its "accumulated errors". Here the members run one after the other in the order of
  the list, each on the state the one before left, and every member runs whatever
  became of the others; the join completes with all values when no member was
  rejected, and is rejected with the array of the members' rejections otherwise.
\<close>

fun settle :: "'a promise list \<Rightarrow> state \<Rightarrow> (rejection + 'a) list \<times> state" where
  "settle [] s = ([], s)"
| "settle (p # ps) s =
     (case p s of (r, s') \<Rightarrow> (case settle ps s' of (rs, s'') \<Rightarrow> (r # rs, s'')))"

fun rejections :: "(rejection + 'a) list \<Rightarrow> rejection list" where
  "rejections [] = []"
| "rejections (Inl e # rs) = e # rejections rs"
| "rejections (Inr x # rs) = rejections rs"

fun completions :: "(rejection + 'a) list \<Rightarrow> 'a list" where
  "completions [] = []"
| "completions (Inl e # rs) = completions rs"
| "completions (Inr x # rs) = x # completions rs"

definition TPromise_join :: "'a promise list \<Rightarrow> 'a list promise" where
  "TPromise_join ps = (\<lambda>s. case settle ps s of (rs, s') \<Rightarrow>
     (if rejections rs = [] then Inr (completions rs) else Inl (RejectedAll (rejections rs)), s'))"

text \<open>The join of two promises of different types, as in \<^verbatim>\<open>readManifest\<close>.\<close>

definition join2 :: "'a promise \<Rightarrow> 'b promise \<Rightarrow> ('a \<times> 'b) promise" where
  "join2 p q = (\<lambda>s. case p s of (r1, s') \<Rightarrow> (case q s' of (r2, s'') \<Rightarrow>
     (case (r1, r2) of
        (Inr x, Inr y) \<Rightarrow> Inr (x, y)
      | (Inl e, Inr y) \<Rightarrow> Inl (RejectedAll [e])
      | (Inr x, Inl e') \<Rightarrow> Inl (RejectedAll [e'])
      | (Inl e, Inl e') \<Rightarrow> Inl (RejectedAll [e, e']), s'')))"

text \<open>An emitter's \<^verbatim>\<open>fire\<close>: the event is appended to the events so far.\<close>

definition fire :: "event \<Rightarrow> state \<Rightarrow> state" where
  "fire e s = s\<lparr>events := events s @ [e]\<rparr>"

subsection \<open>File-system primitives\<close>

text \<open>
  The primitives of \<^verbatim>\<open>vs/base/node/pfs\<close> and \<^verbatim>\<open>vs/base/node/zip\<close>, on the state. A
  read of something that is not there is rejected with the code \<^verbatim>\<open>ENOENT\<close>; writes
  and removals are taken to succeed. The service writes below \<^verbatim>\<open>this.extensionsPath\<close>
  only, so the writing primitives take the name of the directory there.
\<close>

definition fs_error :: "string \<Rightarrow> rejection" where
  "fs_error c = Rejected \<lparr>error_name = ''Error'', message = c, code = Some c\<rparr>"

text \<open>\<^verbatim>\<open>pfs.readFile(this.obsoletePath, 'utf8')\<close>\<close>

definition readFile_obsoletePath :: "obsolete file_text promise" where
  "readFile_obsoletePath = (\<lambda>s. case obsoleteFile s of
       NoFile \<Rightarrow> (Inl (fs_error ''ENOENT''), s)
     | File raw \<Rightarrow> (Inr raw, s)
     | Unreadable c \<Rightarrow> (Inl (fs_error c), s))"

text \<open>\<^verbatim>\<open>pfs.rimraf(this.obsoletePath)\<close> and \<^verbatim>\<open>pfs.writeFile(this.obsoletePath, raw)\<close>\<close>

definition rimraf_obsoletePath :: "unit promise" where
  "rimraf_obsoletePath = (\<lambda>s. (Inr (), s\<lparr>obsoleteFile := NoFile\<rparr>))"

definition writeFile_obsoletePath :: "obsolete file_text \<Rightarrow> unit promise" where
  "writeFile_obsoletePath raw = (\<lambda>s. (Inr (), s\<lparr>obsoleteFile := File raw\<rparr>))"

text \<open>The directories below a root, and the directory at a path.\<close>

definition entries :: "root \<Rightarrow> state \<Rightarrow> (string \<times> dir) list" where
  "entries r s = (case r of SystemExtensionsRoot \<Rightarrow> systemExtensions s
                          | ExtensionsPath \<Rightarrow> userExtensions s)"

definition lookup_dir :: "path \<Rightarrow> state \<Rightarrow> dir option" where
  "lookup_dir p s = map_of (entries (fst p) s) (snd p)"

text \<open>
  \<^verbatim>\<open>pfs.readdir(root)\<close>. The entry of the index file itself is left out of the listing
  of \<^verbatim>\<open>this.extensionsPath\<close>: it is no directory, so \<open>scanExtensions\<close> would drop it as
  it drops every entry it fails to read.
\<close>

definition readdir_root :: "root \<Rightarrow> string list promise" where
  "readdir_root r = (\<lambda>s. (Inr (map fst (entries r s)), s))"

text \<open>\<^verbatim>\<open>pfs.readdir(extensionPath)\<close>\<close>

definition readdir :: "path \<Rightarrow> string list promise" where
  "readdir p = (\<lambda>s. case lookup_dir p s of
       None \<Rightarrow> (Inl (fs_error ''ENOENT''), s)
     | Some d \<Rightarrow> (Inr (children d), s))"

text \<open>\<^verbatim>\<open>pfs.readFile(path.join(extensionPath, 'package.json'), 'utf8')\<close>\<close>

definition readFile_package_json :: "path \<Rightarrow> IExtensionManifest file_text promise" where
  "readFile_package_json p = (\<lambda>s. case lookup_dir p s of
       None \<Rightarrow> (Inl (fs_error ''ENOENT''), s)
     | Some d \<Rightarrow> (case package_json d of
          None \<Rightarrow> (Inl (fs_error ''ENOENT''), s)
        | Some raw \<Rightarrow> (Inr raw, s)))"

text \<open>\<^verbatim>\<open>pfs.readFile(path.join(extensionPath, 'package.nls.json'), 'utf8')\<close>\<close>

definition readFile_package_nls_json :: "path \<Rightarrow> nls_messages file_text promise" where
  "readFile_package_nls_json p = (\<lambda>s. case lookup_dir p s of
       None \<Rightarrow> (Inl (fs_error ''ENOENT''), s)
     | Some d \<Rightarrow> (case package_nls_json d of
          None \<Rightarrow> (Inl (fs_error ''ENOENT''), s)
        | Some raw \<Rightarrow> (Inr raw, s)))"

text \<open>\<^verbatim>\<open>pfs.writeFile(manifestPath, raw)\<close> for the extension directory \<open>id\<close>\<close>

definition writeFile_package_json :: "string \<Rightarrow> IExtensionManifest file_text \<Rightarrow> unit promise" where
  "writeFile_package_json id' raw = (\<lambda>s. case map_of (userExtensions s) id' of
       None \<Rightarrow> (Inl (fs_error ''ENOENT''), s)
     | Some d \<Rightarrow> (Inr (), s\<lparr>userExtensions :=
          AList.update id' (d\<lparr>package_json := Some raw\<rparr>) (userExtensions s)\<rparr>))"

text \<open>\<^verbatim>\<open>pfs.rimraf(path.join(this.extensionsPath, id))\<close>\<close>

definition rimraf :: "string \<Rightarrow> unit promise" where
  "rimraf id' = (\<lambda>s. (Inr (), s\<lparr>userExtensions := AList.delete id' (userExtensions s)\<rparr>))"

text \<open>\<^verbatim>\<open>pfs.exists(path.join(this.extensionsPath, id))\<close>\<close>

definition exists_path :: "string \<Rightarrow> bool promise" where
  "exists_path id' = (\<lambda>s. (Inr (map_of (userExtensions s) id' \<noteq> None), s))"

text \<open>
  \<^verbatim>\<open>buffer(zipPath, 'extension/package.json')\<close>: the text of the manifest entry of
  an archive.
\<close>

definition zip_buffer :: "'v env \<Rightarrow> string \<Rightarrow> IExtensionManifest file_text promise" where
  "zip_buffer env zp = (\<lambda>s. case zip_archive env zp of
       None \<Rightarrow> (Inl (fs_error ''ENOENT''), s)
     | Some d \<Rightarrow> (case package_json d of
          None \<Rightarrow> (Inl (Rejected (new_Error ''extension/package.json not found inside zip.'')), s)
        | Some raw \<Rightarrow> (Inr raw, s)))"

text \<open>
  \<^verbatim>\<open>extract(zipPath, extensionPath, { sourcePath: 'extension', overwrite: true })\<close>:
  the directory \<open>id\<close> gets the content of the archive.
\<close>

definition zip_extract :: "'v env \<Rightarrow> string \<Rightarrow> string \<Rightarrow> unit promise" where
  "zip_extract env zp id' = (\<lambda>s. case zip_archive env zp of
       None \<Rightarrow> (Inl (fs_error ''ENOENT''), s)
     | Some d \<Rightarrow> (Inr (), s\<lparr>userExtensions := AList.update id' d (userExtensions s)\<rparr>))"

text \<open>A call of a collaborator: it settles at once and leaves the state alone.\<close>

definition call :: "rejection + 'a \<Rightarrow> 'a promise" where
  "call r = (\<lambda>s. (r, s))"

text \<open>Firing an event as a step of a chain.\<close>

definition fireP :: "event \<Rightarrow> unit promise" where
  "fireP e = (\<lambda>s. (Inr (), fire e s))"

subsection \<open>Messages\<close>

text \<open>
  \<^verbatim>\<open>nls.localize(key, message, args...)\<close> with the default message: the placeholders
  \<^verbatim>\<open>{0}\<close>, \<^verbatim>\<open>{1}\<close>, \<^verbatim>\<open>{2}\<close> replaced by the arguments.
\<close>

definition invalidManifest :: string where
  "invalidManifest = ''Extension invalid: package.json is not a JSON file.''"

definition restartCodeLocal :: "string \<Rightarrow> string" where
  "restartCodeLocal a0 = ''Please restart Code before reinstalling '' @ a0 @ ''.''"

definition restartCodeGallery :: string where
  "restartCodeGallery = ''Please restart Code before reinstalling.''"

definition notExists :: string where
  "notExists = ''Could not find extension''"

definition singleDependentError :: "string \<Rightarrow> string \<Rightarrow> string" where
  "singleDependentError a0 a1 =
     ''Cannot uninstall extension '' @ [CHR 0x27] @ a0 @ [CHR 0x27] @ ''. Extension ''
       @ [CHR 0x27] @ a1 @ [CHR 0x27] @ '' depends on this.''"

definition twoDependentsError :: "string \<Rightarrow> string \<Rightarrow> string \<Rightarrow> string" where
  "twoDependentsError a0 a1 a2 =
     ''Cannot uninstall extension '' @ [CHR 0x27] @ a0 @ [CHR 0x27] @ ''. Extensions ''
       @ [CHR 0x27] @ a1 @ [CHR 0x27] @ '' and '' @ [CHR 0x27] @ a2 @ [CHR 0x27]
       @ '' depend on this.''"

definition multipleDependentsError :: "string \<Rightarrow> string \<Rightarrow> string \<Rightarrow> string" where
  "multipleDependentsError a0 a1 a2 =
     ''Cannot uninstall extension '' @ [CHR 0x27] @ a0 @ [CHR 0x27] @ ''. Extensions ''
       @ [CHR 0x27] @ a1 @ [CHR 0x27] @ '', '' @ [CHR 0x27] @ a2 @ [CHR 0x27]
       @ '' and others depend on this.''"

definition TypeError :: "js_error" where
  "TypeError = \<lparr>error_name = ''TypeError'', message = ''Cannot read property of undefined'', code = None\<rparr>"

text \<open>\<^verbatim>\<open>manifest.displayName || manifest.name\<close>: an empty string is falsy.\<close>

definition displayName_or_name :: "IExtensionManifest \<Rightarrow> string" where
  "displayName_or_name m =
     (case displayName m of
        None \<Rightarrow> name m
      | Some d \<Rightarrow> if d \<noteq> [] then d else name m)"

subsection \<open>Manifest reader\<close>

text \<open>
  \<^verbatim>\<open>parseManifest\<close>: \<^verbatim>\<open>manifest.__metadata || null\<close> is taken out of the parsed object;
  a text that does not parse is rejected with the \<^verbatim>\<open>invalidManifest\<close> error.
\<close>

definition parseManifest ::
  "IExtensionManifest file_text \<Rightarrow> (IExtensionManifest \<times> IGalleryMetadata option) promise" where
  "parseManifest raw =
     (case JSON_parse raw of
        Some m \<Rightarrow> TPromise_as (m\<lparr>metadata_field := None\<rparr>, metadata_field m)
      | None \<Rightarrow> TPromise_wrapError (Rejected (new_Error invalidManifest)))"

definition validate :: "'v env \<Rightarrow> string \<Rightarrow> IExtensionManifest promise" where
  "validate env zp =
     thenP (thenP (zip_buffer env zp) (\<lambda>buffer. parseManifest buffer))
           (\<lambda>(manifest, _). TPromise_as manifest)"

text \<open>
  \<^verbatim>\<open>readManifest\<close>: the two promises of the array \<^verbatim>\<open>promises\<close>, for the manifest and
  for the translated texts, and their join. A missing \<^verbatim>\<open>package.nls.json\<close> reads as \<^verbatim>\<open>'{}'\<close>; its \<^verbatim>\<open>JSON.parse\<close> is not
  guarded.
\<close>

definition readManifest_package_json ::
  "path \<Rightarrow> (IExtensionManifest \<times> IGalleryMetadata option) promise" where
  "readManifest_package_json extensionPath =
     thenP (readFile_package_json extensionPath) (\<lambda>raw. parseManifest raw)"

definition readManifest_package_nls_json :: "path \<Rightarrow> nls_messages promise" where
  "readManifest_package_nls_json extensionPath =
     thenP
       (otherwise (readFile_package_nls_json extensionPath)
          (\<lambda>err. if rejection_code err \<noteq> Some ''ENOENT''
                  then TPromise_wrapError err else TPromise_as (Json [])))
       (\<lambda>raw. case JSON_parse raw of
                 Some t \<Rightarrow> TPromise_as t
               | None \<Rightarrow> TPromise_wrapError (Rejected SyntaxError))"

definition readManifest ::
  "'v env \<Rightarrow> path \<Rightarrow> (IExtensionManifest \<times> IGalleryMetadata option) promise" where
  "readManifest env extensionPath =
     thenP
       (join2 (readManifest_package_json extensionPath)
              (readManifest_package_nls_json extensionPath))
       (\<lambda>((manifest, metadata), translated).
          TPromise_as (localizeManifest env manifest translated, metadata))"

subsection \<open>Obsolete Index\<close>

text \<open>
  \<^verbatim>\<open>withObsoleteExtensions\<close>. \<open>fn\<close> returns its result together with the object as it
  left it (\<^verbatim>\<open>fn\<close> may change the object it is handed). The chain is the source's:
  read the file, a missing one reading as \<^verbatim>\<open>'{}'\<close>; parse, a text that does not parse
  giving \<^verbatim>\<open>{}\<close>; apply \<open>fn\<close>; remove the file when the object has no key and write
  it otherwise; complete with the result. \<^verbatim>\<open>this.obsoleteFileLimiter.queue\<close> runs the
  chain when the accesses queued before it have settled; this is the operation as a
  caller that waits for it sees it, every access run to its end before the next is
  started. The call as it is queued on the limiter, among other calls in flight,
  is \<open>withObsoleteExtensions_queued\<close> in the section on the limiter below.
\<close>

definition withObsoleteExtensions_read :: "obsolete promise" where
  "withObsoleteExtensions_read =
     thenP
       (otherwise readFile_obsoletePath
          (\<lambda>err. if rejection_code err = Some ''ENOENT''
                  then TPromise_as (Json []) else TPromise_wrapError err))
       (\<lambda>raw. TPromise_as (case JSON_parse raw of Some obsolete \<Rightarrow> obsolete | None \<Rightarrow> []))"

definition withObsoleteExtensions_persist :: "obsolete \<Rightarrow> unit promise" where
  "withObsoleteExtensions_persist obsolete =
     (if obsolete = [] then rimraf_obsoletePath
      else writeFile_obsoletePath (JSON_stringify obsolete))"

definition withObsoleteExtensions :: "(obsolete \<Rightarrow> 'r \<times> obsolete) \<Rightarrow> 'r promise" where
  "withObsoleteExtensions fn =
     thenP
       (thenP withObsoleteExtensions_read (\<lambda>obsolete. TPromise_as (fn obsolete)))
       (\<lambda>(result, obsolete).
          thenP (withObsoleteExtensions_persist obsolete) (\<lambda>_. TPromise_as result))"

definition filterObsolete :: "string list \<Rightarrow> string list promise" where
  "filterObsolete ids =
     withObsoleteExtensions
       (\<lambda>allObsolete. (filter (\<lambda>id'. map_of allObsolete id' = Some True) ids, allObsolete))"

definition isObsolete :: "string \<Rightarrow> bool promise" where
  "isObsolete id' = thenP (filterObsolete [id']) (\<lambda>obsolete. TPromise_as (length obsolete = 1))"

definition setObsolete :: "string \<Rightarrow> unit promise" where
  "setObsolete id' = withObsoleteExtensions (\<lambda>obsolete. ((), AList.update id' True obsolete))"

definition unsetObsolete :: "string \<Rightarrow> unit promise" where
  "unsetObsolete id' = withObsoleteExtensions (\<lambda>obsolete. ((), AList.delete id' obsolete))"

definition getObsoleteExtensions :: "obsolete promise" where
  "getObsoleteExtensions = withObsoleteExtensions (\<lambda>obsolete. (obsolete, obsolete))"

subsection \<open>Extension scanner\<close>

text \<open>
  \<^verbatim>\<open>/^readme(\.txt|\.md|)$/i.test(child)\<close> and \<^verbatim>\<open>/^changelog(\.txt|\.md|)$/i.test(child)\<close>
\<close>

definition toLowerCase :: "string \<Rightarrow> string" where
  "toLowerCase str =
     map (\<lambda>c. let n = (of_char c :: nat) in if 65 \<le> n \<and> n \<le> 90 then char_of (n + 32) else c) str"

definition is_readme :: "string \<Rightarrow> bool" where
  "is_readme child = (toLowerCase child \<in> {''readme'', ''readme.txt'', ''readme.md''})"

definition is_changelog :: "string \<Rightarrow> bool" where
  "is_changelog child =
     (toLowerCase child \<in> {''changelog'', ''changelog.txt'', ''changelog.md''})"

text \<open>
  \<^verbatim>\<open>children.filter(test)[0]\<close> and the URL made of it, \<^verbatim>\<open>null\<close> when there is none.
\<close>

definition first_url :: "(string \<Rightarrow> bool) \<Rightarrow> path \<Rightarrow> string list \<Rightarrow> (path \<times> string) option" where
  "first_url test extensionPath cs =
     (case filter test cs of [] \<Rightarrow> None | c # _ \<Rightarrow> Some (extensionPath, c))"

definition scanExtensionFolders :: "root \<Rightarrow> string list promise" where
  "scanExtensionFolders r =
     thenP getObsoleteExtensions
       (\<lambda>obsolete. thenP (readdir_root r)
          (\<lambda>extensions. TPromise_as (filter (\<lambda>id'. \<not> (map_of obsolete id' = Some True)) extensions)))"

text \<open>
  The function \<^verbatim>\<open>each\<close> of \<^verbatim>\<open>scanExtensions\<close>: an entry that fails to read gives
  \<^verbatim>\<open>null\<close>. The limiter of ten around it bounds how many run at a time and changes
  no result.
\<close>

definition scanExtensions_each ::
  "'v env \<Rightarrow> root \<Rightarrow> LocalExtensionType \<Rightarrow> string \<Rightarrow> ILocalExtension option promise" where
  "scanExtensions_each env r t id' =
     (let extensionPath = (r, id') in
      otherwise
        (thenP (readdir extensionPath)
           (\<lambda>cs. thenP (readManifest env extensionPath)
              (\<lambda>(manifest, metadata).
                 TPromise_as (Some
                   \<lparr>ext_type = t, ext_id = id',
                    manifest = manifest\<lparr>extensionDependencies :=
                      map_option (map (adoptToGalleryExtensionId env)) (extensionDependencies manifest)\<rparr>,
                    metadata = metadata, path = extensionPath,
                    readmeUrl = first_url is_readme extensionPath cs,
                    changelogUrl = first_url is_changelog extensionPath cs\<rparr>))))
        (\<lambda>_. TPromise_as None))"

definition scanExtensions ::
  "'v env \<Rightarrow> root \<Rightarrow> LocalExtensionType \<Rightarrow> ILocalExtension list promise" where
  "scanExtensions env r t =
     thenP
       (thenP (scanExtensionFolders r)
          (\<lambda>extensionIds. TPromise_join (map (scanExtensions_each env r t) extensionIds)))
       (\<lambda>result. TPromise_as (List.map_filter (\<lambda>a. a) result))"

definition scanSystemExtensions :: "'v env \<Rightarrow> ILocalExtension list promise" where
  "scanSystemExtensions env = scanExtensions env SystemExtensionsRoot System"

text \<open>
  Modelled from the spec: \<^verbatim>\<open>groupBy\<close> and \<^verbatim>\<open>values\<close> of
  \<^verbatim>\<open>vs/base/common/collections\<close> are not among the sources. The spec: "group by canonical
  identifier". \<open>groupBy\<close> gives the dictionary from a key to the elements with that
  key, in their order; the keys stand in the order in which they first occur, and
  \<open>values_of\<close> lists the groups in the order of the keys.
\<close>

definition groupBy :: "'a list \<Rightarrow> ('a \<Rightarrow> string) \<Rightarrow> (string \<times> 'a list) list" where
  "groupBy data groupFn =
     foldl (\<lambda>result element.
              AList.update (groupFn element)
                ((case map_of result (groupFn element) of None \<Rightarrow> [] | Some g \<Rightarrow> g) @ [element])
                result)
           [] data"

definition values_of :: "(string \<times> 'a) list \<Rightarrow> 'a list" where
  "values_of dict = map snd dict"

text \<open>
  \<^verbatim>\<open>semver.rcompare(a, b)\<close>: positive when \<open>a\<close> is the lower version, negative when it
  is the higher one; a \<^verbatim>\<open>TypeError\<close> when one of the two is no version.
\<close>

definition semver_rcompare :: "('v::linorder) env \<Rightarrow> string \<Rightarrow> string \<Rightarrow> rejection + int" where
  "semver_rcompare env a b =
     (case (semver env a, semver env b) of
        (Some va, Some vb) \<Rightarrow> Inr (if vb < va then -1 else if va < vb then 1 else 0)
      | _ \<Rightarrow> Inl (Rejected TypeError))"

text \<open>
  \<^verbatim>\<open>Array.prototype.sort(compare)\<close>, as a stable insertion sort: an element goes before
  the first one that does not compare below it. A comparison that throws ends the
  sort with that error; a list of one element is sorted with no comparison at all.
  The language leaves the algorithm to the engine; of a sorted group the service
  takes the first element only, one that no other element of the group compares
  above.
\<close>

fun sort_insert :: "('a \<Rightarrow> 'a \<Rightarrow> rejection + int) \<Rightarrow> 'a \<Rightarrow> 'a list \<Rightarrow> rejection + 'a list" where
  "sort_insert compare x [] = Inr [x]"
| "sort_insert compare x (y # ys) =
     (case compare x y of
        Inl e \<Rightarrow> Inl e
      | Inr c \<Rightarrow>
          if c \<le> 0 then Inr (x # y # ys)
          else (case sort_insert compare x ys of Inl e \<Rightarrow> Inl e | Inr zs \<Rightarrow> Inr (y # zs)))"

fun Array_sort :: "('a \<Rightarrow> 'a \<Rightarrow> rejection + int) \<Rightarrow> 'a list \<Rightarrow> rejection + 'a list" where
  "Array_sort compare [] = Inr []"
| "Array_sort compare (x # xs) =
     (case Array_sort compare xs of Inl e \<Rightarrow> Inl e | Inr ys \<Rightarrow> sort_insert compare x ys)"

text \<open>
  \<^verbatim>\<open>byId.map(p => p.sort(...)[0])\<close>: the first group whose sort throws ends the map.
  A group is never empty, so \<^verbatim>\<open>[0]\<close> is its first element.
\<close>

fun first_of_each ::
  "('a \<Rightarrow> 'a \<Rightarrow> rejection + int) \<Rightarrow> 'a list list \<Rightarrow> rejection + 'a list" where
  "first_of_each compare [] = Inr []"
| "first_of_each compare (p # ps) =
     (case Array_sort compare p of
        Inl e \<Rightarrow> Inl e
      | Inr sorted_p \<Rightarrow>
          (case first_of_each compare ps of
             Inl e \<Rightarrow> Inl e
           | Inr firsts \<Rightarrow> Inr (hd sorted_p # firsts)))"

definition scanUserExtensions :: "('v::linorder) env \<Rightarrow> ILocalExtension list promise" where
  "scanUserExtensions env =
     thenP (scanExtensions env ExtensionsPath User)
       (\<lambda>extensions.
          let byId = values_of (groupBy extensions (getGalleryExtensionIdFromLocal env)) in
          call (first_of_each
                  (\<lambda>a b. semver_rcompare env (version (manifest a)) (version (manifest b)))
                  byId))"

text \<open>\<^verbatim>\<open>getInstalled(type = null)\<close>; \<^verbatim>\<open>flatten\<close> is \<open>concat\<close>.\<close>

definition getInstalled ::
  "('v::linorder) env \<Rightarrow> LocalExtensionType option \<Rightarrow> ILocalExtension list promise" where
  "getInstalled env t =
     (let promises =
            (if t = None \<or> t = Some System then [scanSystemExtensions env] else [])
            @ (if t = None \<or> t = Some User then [scanUserExtensions env] else [])
      in thenP (TPromise_join promises) (\<lambda>lists. TPromise_as (concat lists)))"

subsection \<open>Install orchestrator\<close>

text \<open>
  \<^verbatim>\<open>installExtension\<close>: remove the directory, extract the archive into it, read the
  manifest, list the directory, and write the manifest back with \<^verbatim>\<open>__metadata\<close> set.
\<close>

definition installExtension :: "'v env \<Rightarrow> InstallableExtension \<Rightarrow> ILocalExtension promise" where
  "installExtension env installable =
     (let id' = installable_id installable;
          extensionPath = (ExtensionsPath, id') in
      thenP (rimraf id')
        (\<lambda>_. thenP
           (thenP (zip_extract env (zipPath installable) id') (\<lambda>_. readManifest env extensionPath))
           (\<lambda>(manifest, _).
              thenP (readdir extensionPath)
                (\<lambda>cs.
                   let local = \<lparr>ext_type = User, ext_id = id', manifest = manifest,
                                metadata = installable_metadata installable,
                                path = extensionPath,
                                readmeUrl = first_url is_readme extensionPath cs,
                                changelogUrl = first_url is_changelog extensionPath cs\<rparr>
                   in thenP
                        (thenP
                           (thenP
                              (thenP (readFile_package_json extensionPath) (\<lambda>raw. parseManifest raw))
                              (\<lambda>(manifest, _).
                                 TPromise_as (manifest\<lparr>metadata_field := installable_metadata installable\<rparr>)))
                           (\<lambda>manifest. writeFile_package_json id' (JSON_stringify manifest)))
                        (\<lambda>_. TPromise_as local)))))"

text \<open>\<^verbatim>\<open>uninstallExtension\<close>: mark obsolete, remove the directory, unmark.\<close>

definition uninstallExtension :: "string \<Rightarrow> unit promise" where
  "uninstallExtension id' =
     thenP (thenP (setObsolete id') (\<lambda>_. rimraf id')) (\<lambda>_. unsetObsolete id')"

text \<open>\<^verbatim>\<open>install\<close>, from a package file. \<^verbatim>\<open>path.resolve\<close> is left out: paths are absolute.\<close>

definition install :: "'v env \<Rightarrow> string \<Rightarrow> unit promise" where
  "install env zp =
     thenP (validate env zp)
       (\<lambda>manifest.
          let id' = getLocalExtensionIdFromManifest env manifest in
          thenP (isObsolete id')
            (\<lambda>obsolete.
               if obsolete
               then TPromise_wrapError
                      (Rejected (new_Error (restartCodeLocal (displayName_or_name manifest))))
               else thenP (fireP (InstallExtension id' (FromZip zp)))
                      (\<lambda>_. thenP2
                         (installExtension env
                            \<lparr>zipPath = zp, installable_id = id', installable_metadata = None\<rparr>)
                         (\<lambda>local. fireP (DidInstallExtension id' (FromZip zp) (DidLocal (Some local))))
                         (\<lambda>error. thenP (fireP (DidInstallExtension id' (FromZip zp) (DidError error)))
                                     (\<lambda>_. TPromise_wrapError error)))))"

text \<open>\<^verbatim>\<open>onInstallExtensions\<close>: one install event for each extension, in order.\<close>

definition onInstallExtensions :: "'v env \<Rightarrow> IGalleryExtension list \<Rightarrow> state \<Rightarrow> state" where
  "onInstallExtensions env extensions s =
     foldl (\<lambda>s' extension.
              fire (InstallExtension
                      (getLocalExtensionIdFromGallery env extension (gallery_version extension))
                      (FromGallery extension)) s')
           s extensions"

text \<open>\<^verbatim>\<open>local[index]\<close>: \<^verbatim>\<open>undefined\<close> beyond the end of the array.\<close>

definition at_index :: "'a list \<Rightarrow> nat \<Rightarrow> 'a option" where
  "at_index xs i = (if i < length xs then Some (xs ! i) else None)"

text \<open>
  \<^verbatim>\<open>onDidInstallExtensions(extensions, local, errorCode?, error?)\<close>. \<open>local\<close> is \<open>None\<close>
  where the caller passes \<^verbatim>\<open>null\<close>; reading \<^verbatim>\<open>local[index]\<close> of \<^verbatim>\<open>null\<close> throws.
  \<^verbatim>\<open>if (errorCode)\<close> asks for a code that is given and truthy. The
  promise completes with \<^verbatim>\<open>null\<close> (\<open>None\<close>) when there is no error, and is rejected
  with the error otherwise, an array of errors first joined into one.
\<close>

definition onDidInstallExtensions_events ::
  "'v env \<Rightarrow> IGalleryExtension list \<Rightarrow> (nat \<Rightarrow> did_install) \<Rightarrow> event list" where
  "onDidInstallExtensions_events env extensions outcome =
     map (\<lambda>(gallery, index).
            DidInstallExtension
              (getLocalExtensionIdFromGallery env gallery (gallery_version gallery))
              (FromGallery gallery) (outcome index))
         (zip extensions [0 ..< length extensions])"

definition is_truthy :: "'v env \<Rightarrow> ErrorCode option \<Rightarrow> bool" where
  "is_truthy env errorCode = (case errorCode of None \<Rightarrow> False | Some ec \<Rightarrow> truthy env ec)"

definition onDidInstallExtensions ::
  "'v env \<Rightarrow> IGalleryExtension list \<Rightarrow> ILocalExtension list option \<Rightarrow> ErrorCode option
     \<Rightarrow> rejection option \<Rightarrow> 'a option promise" where
  "onDidInstallExtensions env extensions local errorCode error =
     (let finish =
            (case error of
               None \<Rightarrow> TPromise_as None
             | Some (RejectedAll es) \<Rightarrow>
                 TPromise_wrapError (Rejected (joinErrors (map as_error_or_string es)))
             | Some e \<Rightarrow> TPromise_wrapError e);
          with_local =
            (case local of
               Some l \<Rightarrow>
                 (\<lambda>s. finish (s\<lparr>events := events s
                     @ onDidInstallExtensions_events env extensions (\<lambda>index. DidLocal (at_index l index))\<rparr>))
             | None \<Rightarrow>
                 if extensions = [] then finish
                 else TPromise_wrapError (Rejected TypeError))
      in case errorCode of
           Some ec \<Rightarrow>
             if is_truthy env errorCode
             then (\<lambda>s. finish (s\<lparr>events := events s
                      @ onDidInstallExtensions_events env extensions (\<lambda>_. DidErrorCode ec)\<rparr>))
             else with_local
         | None \<Rightarrow> with_local)"

text \<open>\<^verbatim>\<open>getInstalled().then(local => dependencies.filter(...))\<close>\<close>

definition filterDependenciesToInstall ::
  "('v::linorder) env \<Rightarrow> IGalleryExtension \<Rightarrow> IGalleryExtension list \<Rightarrow> IGalleryExtension list promise" where
  "filterDependenciesToInstall env extension dependencies =
     thenP (getInstalled env None)
       (\<lambda>local. TPromise_as
          (filter (\<lambda>d.
             if uuid extension = uuid d then False
             else (let extensionId = getLocalExtensionIdFromGallery env d (gallery_version d)
                   in list_all (\<lambda>local. ext_id local \<noteq> extensionId) local))
           dependencies))"

definition collectExtensionsToInstall ::
  "('v::linorder) env \<Rightarrow> IGalleryExtension \<Rightarrow> IGalleryExtension list promise" where
  "collectExtensionsToInstall env extension =
     thenP (call (loadCompatibleVersion env extension))
       (\<lambda>extensionToInstall.
          thenP
            (thenP (call (getAllDependencies env extension))
               (\<lambda>allDependencies. filterDependenciesToInstall env extension allDependencies))
            (\<lambda>dependenciesToInstall. TPromise_as (extensionToInstall # dependenciesToInstall)))"

definition checkForObsolete :: "'v env \<Rightarrow> IGalleryExtension list \<Rightarrow> IGalleryExtension list promise" where
  "checkForObsolete env extensionsToInstall =
     thenP (filterObsolete
              (map (\<lambda>i. getLocalExtensionIdFromGallery env i (gallery_version i)) extensionsToInstall))
       (\<lambda>obsolete.
          if obsolete \<noteq> []
          then TPromise_wrapError (Rejected (new_Error restartCodeGallery))
          else TPromise_as extensionsToInstall)"

definition prepareAndCollectExtensionsToInstall ::
  "('v::linorder) env \<Rightarrow> IGalleryExtension \<Rightarrow> IGalleryExtension list option promise" where
  "prepareAndCollectExtensionsToInstall env extension =
     (\<lambda>s. thenP2 (collectExtensionsToInstall env extension)
        (\<lambda>extensionsToInstall.
           thenP2 (checkForObsolete env extensionsToInstall)
             (\<lambda>extensionsToInstall s'.
                (Inr (Some extensionsToInstall),
                 if length extensionsToInstall > 1
                 then onInstallExtensions env (tl extensionsToInstall) s' else s'))
             (\<lambda>error. onDidInstallExtensions env [extension] None (Some OBSOLETE) (Some error)))
        (\<lambda>error. onDidInstallExtensions env [extension] None (Some GALLERY) (Some error))
        (onInstallExtensions env [extension] s))"

definition downloadInstallableExtension ::
  "'v env \<Rightarrow> IGalleryExtension \<Rightarrow> InstallableExtension promise" where
  "downloadInstallableExtension env extension =
     (let id' = getLocalExtensionIdFromGallery env extension (gallery_version extension);
          metadata = \<lparr>meta_id = uuid extension,
                      meta_publisherId = publisherId extension,
                      meta_publisherDisplayName = publisherDisplayName extension\<rparr>
      in thenP (call (download env extension))
           (\<lambda>zp. thenP (validate env zp)
              (\<lambda>_. TPromise_as
                 \<lparr>zipPath = zp, installable_id = id', installable_metadata = Some metadata\<rparr>)))"

definition getGalleryExtensionForLocalExtension ::
  "'v env \<Rightarrow> IGalleryExtension list \<Rightarrow> ILocalExtension \<Rightarrow> IGalleryExtension option" where
  "getGalleryExtensionForLocalExtension env galleryExtensions localExtension =
     (let filtered =
            filter (\<lambda>galleryExtension.
                      getLocalExtensionIdFromGallery env galleryExtension (gallery_version galleryExtension)
                        = ext_id localExtension)
                   galleryExtensions
      in case filtered of [] \<Rightarrow> None | g # _ \<Rightarrow> Some g)"

definition filterOutUninstalled ::
  "('v::linorder) env \<Rightarrow> IGalleryExtension list \<Rightarrow> ILocalExtension list promise" where
  "filterOutUninstalled env extensions =
     thenP (getInstalled env None)
       (\<lambda>installed. TPromise_as
          (filter (\<lambda>local. getGalleryExtensionForLocalExtension env extensions local \<noteq> None) installed))"

text \<open>
  \<^verbatim>\<open>rollback\<close>: whatever becomes of the scan and of the removals, the promise completes
  (\<^verbatim>\<open>.then(() => null, () => null)\<close>).
\<close>

definition rollback :: "('v::linorder) env \<Rightarrow> IGalleryExtension list \<Rightarrow> unit promise" where
  "rollback env extensions =
     thenP2
       (thenP (filterOutUninstalled env extensions)
          (\<lambda>installed. TPromise_join (map (\<lambda>local. uninstallExtension (ext_id local)) installed)))
       (\<lambda>_. TPromise_as ())
       (\<lambda>_. TPromise_as ())"

definition downloadAndInstallExtensions ::
  "('v::linorder) env \<Rightarrow> IGalleryExtension list \<Rightarrow> ILocalExtension list option promise" where
  "downloadAndInstallExtensions env extensions =
     thenP2
       (TPromise_join (map (\<lambda>extensionToInstall. downloadInstallableExtension env extensionToInstall)
                           extensions))
       (\<lambda>installableExtensions.
          otherwise
            (thenP (TPromise_join (map (\<lambda>installableExtension. installExtension env installableExtension)
                                       installableExtensions))
               (\<lambda>local. TPromise_as (Some local)))
            (\<lambda>error. thenP (rollback env extensions)
               (\<lambda>_. onDidInstallExtensions env extensions None (Some LOCAL) (Some error))))
       (\<lambda>error. onDidInstallExtensions env extensions None (Some GALLERY) (Some error))"

text \<open>
  \<^verbatim>\<open>installFromGallery\<close>. A list that is \<^verbatim>\<open>null\<close> cannot be mapped over: the call on
  it throws.
\<close>

definition installFromGallery :: "('v::linorder) env \<Rightarrow> IGalleryExtension \<Rightarrow> unit option promise" where
  "installFromGallery env extension =
     thenP (prepareAndCollectExtensionsToInstall env extension)
       (\<lambda>extensionsToInstall.
          case extensionsToInstall of
            None \<Rightarrow> TPromise_wrapError (Rejected TypeError)
          | Some extensionsToInstall \<Rightarrow>
              thenP (downloadAndInstallExtensions env extensionsToInstall)
                (\<lambda>local. onDidInstallExtensions env extensionsToInstall local None None))"

subsection \<open>Uninstall orchestrator\<close>

text \<open>
  The records of one scan have pairwise different \<^verbatim>\<open>id\<close>s (the names of the
  directories of a root), so two of them are the same object exactly when they are
  equal: \<^verbatim>\<open>===\<close> and \<^verbatim>\<open>indexOf\<close> on them are equality and membership.
\<close>

definition getDependents ::
  "'v env \<Rightarrow> ILocalExtension \<Rightarrow> ILocalExtension list \<Rightarrow> ILocalExtension list" where
  "getDependents env extension installed =
     filter (\<lambda>e. case extensionDependencies (manifest e) of
                    None \<Rightarrow> False
                  | Some deps \<Rightarrow> getGalleryExtensionIdFromLocal env extension \<in> set deps)
            installed"

text \<open>
  \<^verbatim>\<open>result.splice(start, 1)\<close>: a negative start counts from the end, a start beyond
  the end removes nothing.
\<close>

definition splice1 :: "int \<Rightarrow> 'a list \<Rightarrow> 'a list" where
  "splice1 start xs =
     (let len = int (length xs);
          actualStart = (if start < 0 then max (len + start) 0 else min start len);
          k = nat actualStart
      in take k xs @ drop (k + 1) xs)"

text \<open>
  The loop of \<^verbatim>\<open>filterDependents\<close>, from index \<open>i\<close> with the \<open>result\<close> so far. The
  index handed to \<^verbatim>\<open>splice\<close> is \<^verbatim>\<open>i - (dependencies.length - result.length)\<close>.
\<close>

function filterDependents_loop ::
  "'v env \<Rightarrow> ILocalExtension list \<Rightarrow> ILocalExtension list \<Rightarrow> nat \<Rightarrow> ILocalExtension list
     \<Rightarrow> ILocalExtension list" where
  "filterDependents_loop env dependencies installed i result =
     (if i < length dependencies
      then (let dep = dependencies ! i;
                dependents = filter (\<lambda>e. e \<notin> set dependencies) (getDependents env dep installed)
            in filterDependents_loop env dependencies installed (i + 1)
                 (if dependents \<noteq> []
                  then splice1 (int i - (int (length dependencies) - int (length result))) result
                  else result))
      else result)"
  by pat_completeness auto
termination
  by (relation "measure (\<lambda>(env, dependencies, installed, i, result). length dependencies - i)") auto

definition filterDependents ::
  "'v env \<Rightarrow> ILocalExtension \<Rightarrow> ILocalExtension list \<Rightarrow> ILocalExtension list
     \<Rightarrow> ILocalExtension list" where
  "filterDependents env extension dependencies installed =
     (let installed' =
            filter (\<lambda>i. i \<noteq> extension
                        \<and> (case extensionDependencies (manifest i) of
                             None \<Rightarrow> False
                           | Some deps \<Rightarrow> length deps > 0))
                   installed
      in filterDependents_loop env dependencies installed' 0 dependencies)"

text \<open>
  \<^verbatim>\<open>getDependentsErrorMessage\<close>. With no dependent at all \<^verbatim>\<open>dependents[0].manifest\<close>
  throws.
\<close>

fun getDependentsErrorMessage :: "ILocalExtension \<Rightarrow> ILocalExtension list \<Rightarrow> js_error + string" where
  "getDependentsErrorMessage extension [d0] =
     Inr (singleDependentError (displayName_or_name (manifest extension))
            (displayName_or_name (manifest d0)))"
| "getDependentsErrorMessage extension [d0, d1] =
     Inr (twoDependentsError (displayName_or_name (manifest extension))
            (displayName_or_name (manifest d0)) (displayName_or_name (manifest d1)))"
| "getDependentsErrorMessage extension (d0 # d1 # ds) =
     Inr (multipleDependentsError (displayName_or_name (manifest extension))
            (displayName_or_name (manifest d0)) (displayName_or_name (manifest d1)))"
| "getDependentsErrorMessage extension [] = Inl TypeError"

definition preUninstallExtension :: "ILocalExtension \<Rightarrow> unit promise" where
  "preUninstallExtension extension =
     thenP
       (thenP (exists_path (ext_id extension))
          (\<lambda>exists. if exists then TPromise_as ()
                     else TPromise_wrapError (Rejected (new_Error notExists))))
       (\<lambda>_. fireP (UninstallExtension (ext_id extension)))"

text \<open>
  \<^verbatim>\<open>postUninstallExtension\<close>: the statistic is reported when there is no truthy error
  code, and only then is the event fired.
\<close>

definition postUninstallExtension :: "'v env \<Rightarrow> ILocalExtension \<Rightarrow> ErrorCode option \<Rightarrow> unit promise" where
  "postUninstallExtension env extension error =
     (if \<not> is_truthy env error
      then thenP (call (reportStatistic env (publisher (manifest extension)) (name (manifest extension))
                          (version (manifest extension))))
             (\<lambda>_. fireP (DidUninstallExtension (ext_id extension) error))
      else fireP (DidUninstallExtension (ext_id extension) error))"

text \<open>
  \<^verbatim>\<open>doUninstall\<close>. In the failure branch the promise of \<^verbatim>\<open>postUninstallExtension\<close>
  is not waited for: whatever becomes of it, the error is passed on.
\<close>

definition doUninstall :: "'v env \<Rightarrow> ILocalExtension \<Rightarrow> unit promise" where
  "doUninstall env extension =
     thenP2
       (thenP (preUninstallExtension extension) (\<lambda>_. uninstallExtension (ext_id extension)))
       (\<lambda>_. postUninstallExtension env extension None)
       (\<lambda>error. thenP (otherwise (postUninstallExtension env extension (Some LOCAL))
                            (\<lambda>_. TPromise_as ()))
                   (\<lambda>_. TPromise_wrapError error))"

text \<open>
  \<^verbatim>\<open>uninstallWithDependencies\<close>: the dependents that block the removal are those of
  the extension that are neither the extension itself nor among the dependencies
  left by \<open>filterDependents\<close>.
\<close>

definition blocking_dependents ::
  "'v env \<Rightarrow> ILocalExtension \<Rightarrow> ILocalExtension list \<Rightarrow> ILocalExtension list
     \<Rightarrow> ILocalExtension list" where
  "blocking_dependents env extension dependencies installed =
     (let dependenciesToUninstall = filterDependents env extension dependencies installed
      in filter (\<lambda>dependent. extension \<noteq> dependent \<and> dependent \<notin> set dependenciesToUninstall)
                (getDependents env extension installed))"

definition uninstallWithDependencies ::
  "'v env \<Rightarrow> ILocalExtension \<Rightarrow> ILocalExtension list \<Rightarrow> ILocalExtension list \<Rightarrow> unit promise" where
  "uninstallWithDependencies env extension dependencies installed =
     (let dependenciesToUninstall = filterDependents env extension dependencies installed;
          dependents = blocking_dependents env extension dependencies installed
      in if dependents \<noteq> []
         then (case getDependentsErrorMessage extension dependents of
                 Inr msg \<Rightarrow> TPromise_wrapError (Rejected (new_Error msg))
               | Inl thrown \<Rightarrow> TPromise_wrapError (Rejected thrown))
         else thenP
                (TPromise_join (uninstallExtension (ext_id extension)
                                # map (\<lambda>d. doUninstall env d) dependenciesToUninstall))
                (\<lambda>_. TPromise_as ()))"

subsection \<open>The limiter around the index file\<close>

text \<open>
  Modelled from the spec: the class \<^verbatim>\<open>Limiter\<close> of \<^verbatim>\<open>vs/base/common/async\<close>, through
  which \<open>withObsoleteExtensions\<close> queues every access (\<^verbatim>\<open>new Limiter(1)\<close>), is not among
  the sources. The spec: "the Obsolete Index file is accessed through a strict
  single-slot queue \<emdash> concurrent callers each wait their turn; an access fully
  completes (read-modify-persist) before the next begins", and the owner "processes
  read-modify-write requests strictly in arrival order". Execution is "single-threaded
  cooperative", operations "interleaved at suspension points", which are "all
  filesystem reads/writes/deletes".

  An access in flight is suspended at one of its two suspension points: it waits for
  its read of the file (\<open>Reading fn\<close>), or it has read, has applied \<open>fn\<close> and waits for
  its write or removal of the file (\<open>Persisting result obsolete\<close>). A limiter has its
  number of slots, the accesses queued and not yet started, in arrival order, the
  accesses in flight, and the outcomes of the accesses that have settled.
\<close>

datatype 'r access = Reading "obsolete \<Rightarrow> 'r \<times> obsolete" | Persisting 'r obsolete

record 'r limiter =
  maxDegreeOfParalellism :: nat
  outstandingPromises :: "(obsolete \<Rightarrow> 'r \<times> obsolete) list"
  runningPromises :: "'r access list"
  completed :: "(rejection + 'r) list"

text \<open>\<^verbatim>\<open>new Limiter(n)\<close>\<close>

definition new_Limiter :: "nat \<Rightarrow> 'r limiter" where
  "new_Limiter n =
     \<lparr>maxDegreeOfParalellism = n, outstandingPromises = [], runningPromises = [], completed = []\<rparr>"

text \<open>
  While an access is queued and a slot is free, the first access queued is started:
  its read is issued.
\<close>

function consume :: "'r limiter \<Rightarrow> 'r limiter" where
  "consume L =
     (case outstandingPromises L of
        [] \<Rightarrow> L
      | fn # rest \<Rightarrow>
          if length (runningPromises L) < maxDegreeOfParalellism L
          then consume (L\<lparr>outstandingPromises := rest,
                          runningPromises := runningPromises L @ [Reading fn]\<rparr>)
          else L)"
  by pat_completeness auto
termination
  by (relation "measure (\<lambda>L. length (outstandingPromises L))") auto

declare consume.simps [simp del]

text \<open>\<^verbatim>\<open>limiter.queue(factory)\<close>: the access goes last in the queue, and the queue is served.\<close>

definition queue :: "(obsolete \<Rightarrow> 'r \<times> obsolete) \<Rightarrow> 'r limiter \<Rightarrow> 'r limiter" where
  "queue fn L = consume (L\<lparr>outstandingPromises := outstandingPromises L @ [fn]\<rparr>)"

text \<open>
  The access in slot \<open>k\<close> has settled with an outcome: its slot is free, and the queue
  is served.
\<close>

definition consumed :: "nat \<Rightarrow> rejection + 'r \<Rightarrow> 'r limiter \<Rightarrow> 'r limiter" where
  "consumed k outcome L =
     consume (L\<lparr>runningPromises := take k (runningPromises L) @ drop (Suc k) (runningPromises L),
                 completed := completed L @ [outcome]\<rparr>)"

text \<open>
  One step of the access in slot \<open>k\<close>, on the state: the read it waits for is done,
  and then \<open>fn\<close> is applied and the write issued; or the write it waits for is done,
  and the access settles. The two steps are the two halves of the chain of
  \<open>withObsoleteExtensions\<close>. A read that fails settles the access.
\<close>

type_synonym 'r config = "'r limiter \<times> state"

definition progress :: "nat \<Rightarrow> 'r config \<Rightarrow> 'r config" where
  "progress k c =
     (case c of (L, s) \<Rightarrow>
        if k < length (runningPromises L)
        then (case runningPromises L ! k of
                Reading fn \<Rightarrow>
                  (case withObsoleteExtensions_read s of
                     (Inl e, s') \<Rightarrow> (consumed k (Inl e) L, s')
                   | (Inr obsolete, s') \<Rightarrow>
                       (case fn obsolete of (result, obsolete') \<Rightarrow>
                          (L\<lparr>runningPromises := (runningPromises L)[k := Persisting result obsolete']\<rparr>,
                           s')))
              | Persisting result obsolete \<Rightarrow>
                  (case withObsoleteExtensions_persist obsolete s of
                     (Inl e, s') \<Rightarrow> (consumed k (Inl e) L, s')
                   | (Inr u, s') \<Rightarrow> (consumed k (Inr result) L, s')))
        else c)"

subsection \<open>The operations of the index on the limiter\<close>

text \<open>The constructor: \<^verbatim>\<open>this.obsoleteFileLimiter = new Limiter(1)\<close>.\<close>

definition obsoleteFileLimiter :: "'r limiter" where
  "obsoleteFileLimiter = new_Limiter 1"

text \<open>
  The value an access of the index completes with. The field is declared
  \<^verbatim>\<open>Limiter<void>\<close>, and at run time an access completes with what \<^verbatim>\<open>fn\<close> returned:
  nothing for a mark or an unmark, the identifiers for \<^verbatim>\<open>filterObsolete\<close>, the mapping
  for \<^verbatim>\<open>getObsoleteExtensions\<close>.
\<close>

datatype answer = Void | Ids "string list" | Index obsolete

text \<open>
  \<^verbatim>\<open>withObsoleteExtensions\<close> at the moment of the call:
  \<^verbatim>\<open>this.obsoleteFileLimiter.queue(() => ...)\<close> queues the access on the limiter of the
  service, and the caller goes on with the promise. The chain inside the factory is
  what the file steps of \<open>progress\<close> run. The four operations of the index are calls
  of it, each with the function it hands over.
\<close>

definition withObsoleteExtensions_queued ::
  "(obsolete \<Rightarrow> 'r \<times> obsolete) \<Rightarrow> 'r config \<Rightarrow> 'r config" where
  "withObsoleteExtensions_queued fn c = (case c of (L, s) \<Rightarrow> (queue fn L, s))"

definition filterObsolete_queued :: "string list \<Rightarrow> answer config \<Rightarrow> answer config" where
  "filterObsolete_queued ids =
     withObsoleteExtensions_queued
       (\<lambda>allObsolete. (Ids (filter (\<lambda>id'. map_of allObsolete id' = Some True) ids), allObsolete))"

definition setObsolete_queued :: "string \<Rightarrow> answer config \<Rightarrow> answer config" where
  "setObsolete_queued id' =
     withObsoleteExtensions_queued (\<lambda>obsolete. (Void, AList.update id' True obsolete))"

definition unsetObsolete_queued :: "string \<Rightarrow> answer config \<Rightarrow> answer config" where
  "unsetObsolete_queued id' =
     withObsoleteExtensions_queued (\<lambda>obsolete. (Void, AList.delete id' obsolete))"

definition getObsoleteExtensions_queued :: "answer config \<Rightarrow> answer config" where
  "getObsoleteExtensions_queued =
     withObsoleteExtensions_queued (\<lambda>obsolete. (Index obsolete, obsolete))"

text \<open>
  A request of a caller, and the two ways it is served: started on the limiter, the
  caller not waiting for it; and performed for a caller that waits, which is the
  operation of the service from the section on the Obsolete Index, completing with
  its answer. \<^verbatim>\<open>isObsolete(id)\<close> is the request \<^verbatim>\<open>filterObsolete(id)\<close>.
\<close>

datatype request =
    FilterObsolete "string list"
  | SetObsolete string
  | UnsetObsolete string
  | GetObsoleteExtensions

fun start :: "request \<Rightarrow> answer config \<Rightarrow> answer config" where
  "start (FilterObsolete ids) = filterObsolete_queued ids"
| "start (SetObsolete id') = setObsolete_queued id'"
| "start (UnsetObsolete id') = unsetObsolete_queued id'"
| "start GetObsoleteExtensions = getObsoleteExtensions_queued"

fun perform :: "request \<Rightarrow> answer promise" where
  "perform (FilterObsolete ids) = thenP (filterObsolete ids) (\<lambda>obsolete. TPromise_as (Ids obsolete))"
| "perform (SetObsolete id') = thenP (setObsolete id') (\<lambda>_. TPromise_as Void)"
| "perform (UnsetObsolete id') = thenP (unsetObsolete id') (\<lambda>_. TPromise_as Void)"
| "perform GetObsoleteExtensions = thenP getObsoleteExtensions (\<lambda>obsolete. TPromise_as (Index obsolete))"

text \<open>
  What can happen next: a caller calls an operation of the index, or the pending
  file operation of the access in a slot is done. A schedule is a list of such
  moves, in the order in which they happen; \<open>interleave\<close> makes them, and \<open>requests\<close>
  lists the calls of a schedule in arrival order.
\<close>

datatype move = Call request | FileStep nat

fun interleave :: "move list \<Rightarrow> answer config \<Rightarrow> answer config" where
  "interleave [] c = c"
| "interleave (Call r # sched) c = interleave sched (start r c)"
| "interleave (FileStep k # sched) c = interleave sched (progress k c)"

fun requests :: "move list \<Rightarrow> request list" where
  "requests [] = []"
| "requests (Call r # sched) = r # requests sched"
| "requests (FileStep k # sched) = requests sched"


subsection \<open>Notions used to state the properties\<close>

text \<open>
  The mapping the index file holds, as an access reads it: a missing file and
  a text that does not parse hold the empty mapping.
\<close>

definition index_of :: "state \<Rightarrow> obsolete" where
  "index_of s =
     (case obsoleteFile s of
        NoFile \<Rightarrow> []
      | File raw \<Rightarrow> (case JSON_parse raw of Some obsolete \<Rightarrow> obsolete | None \<Rightarrow> [])
      | Unreadable c \<Rightarrow> [])"

definition readable :: "state \<Rightarrow> bool" where
  "readable s = (case obsoleteFile s of Unreadable c \<Rightarrow> c = ''ENOENT'' | _ \<Rightarrow> True)"

text \<open>
  What \<open>withObsoleteExtensions\<close> leaves on disk for a mapping: no file for the empty
  one, the file with its serialisation otherwise.
\<close>

definition persisted :: "obsolete \<Rightarrow> obsolete_file" where
  "persisted obsolete = (if obsolete = [] then NoFile else File (Json obsolete))"

text \<open>
  A sequence of mark and unmark operations, run one after the other, and the set of
  identifiers that the words of the spec make marked after it: "an identifier is
  obsolete iff marked and not yet unmarked".
\<close>

datatype index_op = Mark string | Unmark string

fun apply_ops :: "index_op list \<Rightarrow> unit promise" where
  "apply_ops [] = TPromise_as ()"
| "apply_ops (Mark id' # ops) = thenP (setObsolete id') (\<lambda>_. apply_ops ops)"
| "apply_ops (Unmark id' # ops) = thenP (unsetObsolete id') (\<lambda>_. apply_ops ops)"

fun marked_after :: "index_op list \<Rightarrow> string set \<Rightarrow> string set" where
  "marked_after [] M = M"
| "marked_after (Mark id' # ops) M = marked_after ops (insert id' M)"
| "marked_after (Unmark id' # ops) M = marked_after ops (M - {id'})"

text \<open>
  One installed extension declares another as a dependency; and a member of a
  dependency set has a dependent among the installed extensions that is neither the
  target nor a member of the set.
\<close>

definition depends_on :: "'v env \<Rightarrow> ILocalExtension \<Rightarrow> ILocalExtension \<Rightarrow> bool" where
  "depends_on env e d =
     (case extensionDependencies (manifest e) of
        None \<Rightarrow> False
      | Some deps \<Rightarrow> getGalleryExtensionIdFromLocal env d \<in> set deps)"

definition has_outside_dependent ::
  "'v env \<Rightarrow> ILocalExtension \<Rightarrow> ILocalExtension list \<Rightarrow> ILocalExtension list \<Rightarrow> ILocalExtension \<Rightarrow> bool" where
  "has_outside_dependent env extension dependencies installed d =
     (\<exists>e \<in> set installed. depends_on env e d \<and> e \<noteq> extension \<and> e \<notin> set dependencies)"

text \<open>
  A dependency the registry lists is to be installed: it is not the requested
  extension itself and its local identifier is not that of an installed extension.
\<close>

definition to_install :: "'v env \<Rightarrow> IGalleryExtension \<Rightarrow> ILocalExtension list \<Rightarrow> IGalleryExtension \<Rightarrow> bool" where
  "to_install env extension local d =
     (uuid d \<noteq> uuid extension
      \<and> getLocalExtensionIdFromGallery env d (gallery_version d) \<notin> ext_id ` set local)"


text \<open>
  The version of one record is a version, and so is that of the other, and the first
  does not come after the second in precedence; and the first element of a list is
  one of highest version in it.
\<close>

definition version_le :: "('v::linorder) env \<Rightarrow> ILocalExtension \<Rightarrow> ILocalExtension \<Rightarrow> bool" where
  "version_le env a b =
     (case (semver env (version (manifest a)), semver env (version (manifest b))) of
        (Some va, Some vb) \<Rightarrow> va \<le> vb
      | _ \<Rightarrow> False)"

definition head_is_highest :: "('v::linorder) env \<Rightarrow> ILocalExtension list \<Rightarrow> bool" where
  "head_is_highest env ys = (\<forall>z \<in> set ys. z = hd ys \<or> version_le env z (hd ys))"

text \<open>
  The state an access of the index that changes nothing leaves: the file is
  re-persisted from the mapping it was read as.
\<close>

definition normalized :: "state \<Rightarrow> state" where
  "normalized s = s\<lparr>obsoleteFile := persisted (index_of s)\<rparr>"

text \<open>A promise that fires no event.\<close>

definition keeps_events :: "'a promise \<Rightarrow> bool" where
  "keeps_events p = (\<forall>s. events (snd (p s)) = events s)"

text \<open>
  The accesses of a list run one after the other, each to its end, by
  \<open>withObsoleteExtensions\<close>; the function a request hands to it; and a limiter with
  nothing queued and nothing in flight.
\<close>

fun handed :: "request \<Rightarrow> obsolete \<Rightarrow> answer \<times> obsolete" where
  "handed (FilterObsolete ids) =
     (\<lambda>allObsolete. (Ids (filter (\<lambda>id'. map_of allObsolete id' = Some True) ids), allObsolete))"
| "handed (SetObsolete id') = (\<lambda>obsolete. (Void, AList.update id' True obsolete))"
| "handed (UnsetObsolete id') = (\<lambda>obsolete. (Void, AList.delete id' obsolete))"
| "handed GetObsoleteExtensions = (\<lambda>obsolete. (Index obsolete, obsolete))"

fun run_sequentially ::
  "(obsolete \<Rightarrow> 'r \<times> obsolete) list \<Rightarrow> state \<Rightarrow> (rejection + 'r) list \<times> state" where
  "run_sequentially [] s = ([], s)"
| "run_sequentially (fn # fns) s =
     (case withObsoleteExtensions fn s of (r, s') \<Rightarrow>
        (case run_sequentially fns s' of (rs, s'') \<Rightarrow> (r # rs, s'')))"

definition quiescent :: "'r limiter \<Rightarrow> bool" where
  "quiescent L = (outstandingPromises L = [] \<and> runningPromises L = [])"

text \<open>
  For the proof: the outcome of an access in flight run to its end; the outcomes and
  the state when everything in flight and queued is run to its end, in order; the
  limiters of one slot that have nothing queued while the slot is free; and the file
  operations still to do.
\<close>

fun finish_access :: "'r access \<Rightarrow> state \<Rightarrow> (rejection + 'r) \<times> state" where
  "finish_access (Reading fn) s = withObsoleteExtensions fn s"
| "finish_access (Persisting r obsolete) s =
     (case withObsoleteExtensions_persist obsolete s of
        (Inl e, s') \<Rightarrow> (Inl e, s')
      | (Inr u, s') \<Rightarrow> (Inr r, s'))"

definition drain :: "'r config \<Rightarrow> (rejection + 'r) list \<times> state" where
  "drain c =
     (case c of (L, s) \<Rightarrow>
        (case (case runningPromises L of
                 [] \<Rightarrow> ([], s)
               | a # _ \<Rightarrow> (case finish_access a s of (r, s') \<Rightarrow> ([r], s'))) of
           (rs1, s1) \<Rightarrow>
             (case run_sequentially (outstandingPromises L) s1 of
                (rs2, s2) \<Rightarrow> (completed L @ rs1 @ rs2, s2))))"

definition single_slot :: "'r limiter \<Rightarrow> bool" where
  "single_slot L =
     (maxDegreeOfParalellism L = 1 \<and> length (runningPromises L) \<le> 1
      \<and> (runningPromises L = [] \<longrightarrow> outstandingPromises L = []))"

definition then_sequentially ::
  "(rejection + 'r) list \<times> state \<Rightarrow> (obsolete \<Rightarrow> 'r \<times> obsolete) list \<Rightarrow> (rejection + 'r) list \<times> state" where
  "then_sequentially d fns =
     (case d of (rs, s) \<Rightarrow> (case run_sequentially fns s of (rs', s') \<Rightarrow> (rs @ rs', s')))"

fun work :: "'r limiter \<Rightarrow> nat" where
  "work L =
     2 * length (outstandingPromises L)
     + (case runningPromises L of
          [] \<Rightarrow> 0
        | Reading fn # _ \<Rightarrow> 2
        | Persisting r obsolete # _ \<Rightarrow> 1)"

declare work.simps [simp del]

text \<open>States and collaborators to run the service on.\<close>

definition empty_state :: state where
  "empty_state = \<lparr>obsoleteFile = NoFile, userExtensions = [], systemExtensions = [], events = []\<rparr>"

definition garbage_state :: state where
  "garbage_state = \<lparr>obsoleteFile = File (NotJson ''{not json''),
     userExtensions = [(''pub.ext-1.0.0'',
        \<lparr>package_json = Some (NotJson ''{''), package_nls_json = Some (NotJson ''[''), children = []\<rparr>)],
     systemExtensions = [], events = []\<rparr>"

definition example_manifest :: "string \<Rightarrow> string \<Rightarrow> string list option \<Rightarrow> IExtensionManifest" where
  "example_manifest n v deps =
     \<lparr>name = n, publisher = ''pub'', version = v, displayName = None,
      extensionDependencies = deps, metadata_field = None\<rparr>"

definition example_local :: "string \<Rightarrow> string \<Rightarrow> string list option \<Rightarrow> ILocalExtension" where
  "example_local n v deps =
     \<lparr>ext_type = User, ext_id = ''pub.'' @ n @ ''-'' @ v,
      manifest = example_manifest n v deps,
      metadata = None, path = (ExtensionsPath, ''pub.'' @ n @ ''-'' @ v),
      readmeUrl = None, changelogUrl = None\<rparr>"

definition example_dir :: "string \<Rightarrow> string \<Rightarrow> string list option \<Rightarrow> dir" where
  "example_dir n v deps =
     \<lparr>package_json = Some (Json (example_manifest n v deps)), package_nls_json = None,
      children = [''package.json'']\<rparr>"

definition example_env :: "nat env" where
  "example_env =
     \<lparr>getLocalExtensionIdFromGallery = (\<lambda>extension v. identifier_id extension @ ''-'' @ v),
      getLocalExtensionIdFromManifest = (\<lambda>m. publisher m @ ''.'' @ toLowerCase (name m) @ ''-'' @ version m),
      getGalleryExtensionIdFromLocal = (\<lambda>l. publisher (manifest l) @ ''.'' @ toLowerCase (name (manifest l))),
      adoptToGalleryExtensionId = (\<lambda>i. toLowerCase i),
      localizeManifest = (\<lambda>m t. m),
      semver = (\<lambda>v. if v = ''1.0.0'' then Some 1 else if v = ''2.0.0'' then Some 2 else None),
      zip_archive = (\<lambda>p.
        if p = ''/tmp/uuid-a'' then Some (example_dir ''a'' ''1.0.0'' None)
        else if p = ''/tmp/uuid-b''
        then Some ((example_dir ''b'' ''1.0.0'' None)\<lparr>package_nls_json := Some (NotJson ''{'')\<rparr>)
        else if p = ''/tmp/uuid-c'' then Some (example_dir ''c'' ''1.0.0'' None)
        else None),
      loadCompatibleVersion = (\<lambda>extension. Inr extension),
      getAllDependencies = (\<lambda>extension. Inr []),
      download = (\<lambda>extension. Inr (''/tmp/'' @ uuid extension)),
      reportStatistic = (\<lambda>p n v. Inr ()),
      truthy = (\<lambda>ec. True)\<rparr>"

definition example_gallery :: "string \<Rightarrow> string \<Rightarrow> IGalleryExtension" where
  "example_gallery n v =
     \<lparr>uuid = ''uuid-'' @ n, identifier_id = ''pub.'' @ n, gallery_version = v,
      publisherId = ''pub-id'', publisherDisplayName = ''Pub''\<rparr>"

definition installed_b :: state where
  "installed_b =
     empty_state\<lparr>userExtensions := [(''pub.b-1.0.0'', example_dir ''b'' ''1.0.0'' None)]\<rparr>"

definition two_versions :: state where
  "two_versions =
     empty_state\<lparr>userExtensions :=
       [(''pub.x-1.0.0'', example_dir ''x'' ''1.0.0'' None),
        (''pub.x-2.0.0'', example_dir ''x'' ''2.0.0'' None)]\<rparr>"


definition marked_a :: state where
  "marked_a = empty_state\<lparr>obsoleteFile := File (Json [(''pub.a-1.0.0'', True)])\<rparr>"











section \<open>Properties\<close>

subsection \<open>Promises and the index file\<close>

lemma thenP_Inr: "p s = (Inr x, s') \<Longrightarrow> thenP p f s = f x s'"
  by (simp add: thenP_def)

lemma thenP_Inl: "p s = (Inl e, s') \<Longrightarrow> thenP p f s = (Inl e, s')"
  by (simp add: thenP_def)

lemma withObsoleteExtensions_read_readable:
  "readable s \<Longrightarrow> withObsoleteExtensions_read s = (Inr (index_of s), s)"
  by (auto simp: withObsoleteExtensions_read_def readable_def index_of_def thenP_def otherwise_def
      readFile_obsoletePath_def fs_error_def TPromise_as_def TPromise_wrapError_def
      split: obsolete_file.splits option.splits)

lemma withObsoleteExtensions_read_unreadable:
  "\<not> readable s \<Longrightarrow> \<exists>c. obsoleteFile s = Unreadable c \<and> withObsoleteExtensions_read s = (Inl (fs_error c), s)"
  by (auto simp: withObsoleteExtensions_read_def readable_def index_of_def thenP_def otherwise_def
      readFile_obsoletePath_def fs_error_def TPromise_as_def TPromise_wrapError_def
      split: obsolete_file.splits option.splits)

lemma withObsoleteExtensions_persist_eq:
  "withObsoleteExtensions_persist obsolete s = (Inr (), s\<lparr>obsoleteFile := persisted obsolete\<rparr>)"
  by (simp add: withObsoleteExtensions_persist_def persisted_def rimraf_obsoletePath_def
      writeFile_obsoletePath_def JSON_stringify_def)

lemma withObsoleteExtensions_readable:
  "readable s \<Longrightarrow>
   withObsoleteExtensions fn s
     = (Inr (fst (fn (index_of s))), s\<lparr>obsoleteFile := persisted (snd (fn (index_of s)))\<rparr>)"
  by (simp add: withObsoleteExtensions_def thenP_def withObsoleteExtensions_read_readable
      withObsoleteExtensions_persist_eq TPromise_as_def split: prod.splits)

lemma withObsoleteExtensions_unreadable:
  "\<not> readable s \<Longrightarrow> \<exists>e. withObsoleteExtensions fn s = (Inl e, s)"
  using withObsoleteExtensions_read_unreadable [of s]
  by (auto simp: withObsoleteExtensions_def thenP_def)

lemma index_of_File [simp]:
  "index_of (s\<lparr>obsoleteFile := File (Json obsolete)\<rparr>) = obsolete"
  "readable (s\<lparr>obsoleteFile := File raw\<rparr>)"
  "index_of (s\<lparr>obsoleteFile := NoFile\<rparr>) = []"
  "readable (s\<lparr>obsoleteFile := NoFile\<rparr>)"
  by (simp_all add: index_of_def readable_def)

lemma index_of_persisted [simp]: "index_of (s\<lparr>obsoleteFile := persisted obsolete\<rparr>) = obsolete"
  by (simp add: index_of_def persisted_def)

lemma readable_persisted [simp]: "readable (s\<lparr>obsoleteFile := persisted obsolete\<rparr>)"
  by (simp add: readable_def persisted_def)


lemma setObsolete_readable:
  "readable s \<Longrightarrow>
   setObsolete id' s = (Inr (), s\<lparr>obsoleteFile := persisted (AList.update id' True (index_of s))\<rparr>)"
  by (simp add: setObsolete_def withObsoleteExtensions_readable)

lemma unsetObsolete_readable:
  "readable s \<Longrightarrow>
   unsetObsolete id' s = (Inr (), s\<lparr>obsoleteFile := persisted (AList.delete id' (index_of s))\<rparr>)"
  by (simp add: unsetObsolete_def withObsoleteExtensions_readable)

lemma keys_delete: "fst ` set (AList.delete k al) = fst ` set al - {k}"
proof -
  have "set (map fst (AList.delete k al)) = set (map fst al) - {k}"
    by (simp add: delete_keys)
  then show ?thesis by simp
qed

lemma persisted_NoFile [simp]: "persisted obsolete = NoFile \<longleftrightarrow> obsolete = []"
  by (simp add: persisted_def)

lemma apply_ops_readable:
  "readable s \<Longrightarrow> ops \<noteq> [] \<Longrightarrow>
   \<exists>s'. apply_ops ops s = (Inr (), s') \<and> readable s'
      \<and> obsoleteFile s' = persisted (index_of s')
      \<and> fst ` set (index_of s') = marked_after ops (fst ` set (index_of s))
      \<and> userExtensions s' = userExtensions s \<and> systemExtensions s' = systemExtensions s
      \<and> events s' = events s"
proof (induction ops arbitrary: s)
  case Nil
  then show ?case by simp
next
  case (Cons op ops)
  obtain s1 where s1:
    "(case op of Mark i \<Rightarrow> setObsolete i | Unmark i \<Rightarrow> unsetObsolete i) s = (Inr (), s1)"
    "readable s1" "obsoleteFile s1 = persisted (index_of s1)"
    "fst ` set (index_of s1) = marked_after [op] (fst ` set (index_of s))"
    "userExtensions s1 = userExtensions s" "systemExtensions s1 = systemExtensions s"
    "events s1 = events s"
    using Cons.prems(1)
    by (cases op) (auto simp: setObsolete_readable unsetObsolete_readable dom_update keys_delete)
  show ?case
  proof (cases "ops = []")
    case True
    then show ?thesis using s1 by (cases op) (auto simp: thenP_def TPromise_as_def)
  next
    case False
    from Cons.IH [OF s1(2) False] obtain s' where
      "apply_ops ops s1 = (Inr (), s')" "readable s'" "obsoleteFile s' = persisted (index_of s')"
      "fst ` set (index_of s') = marked_after ops (fst ` set (index_of s1))"
      "userExtensions s' = userExtensions s1" "systemExtensions s' = systemExtensions s1"
      "events s' = events s1"
      by blast
    then show ?thesis using s1 by (cases op) (auto simp: thenP_def)
  qed
qed


lemma withObsoleteExtensions_Inr_readable:
  "withObsoleteExtensions fn s = (Inr r, s') \<Longrightarrow> readable s"
  using withObsoleteExtensions_unreadable [of s fn] by (cases "readable s") auto

lemma join2_Inl_Inr:
  "p s = (Inl e, s') \<Longrightarrow> q s' = (Inr y, s'') \<Longrightarrow> join2 p q s = (Inl (RejectedAll [e]), s'')"
  by (simp add: join2_def)

lemma join2_Inr_Inl:
  "p s = (Inr x, s') \<Longrightarrow> q s' = (Inl e, s'') \<Longrightarrow> join2 p q s = (Inl (RejectedAll [e]), s'')"
  by (simp add: join2_def)

lemma join2_Inl_Inl:
  "p s = (Inl e, s') \<Longrightarrow> q s' = (Inl e', s'') \<Longrightarrow> join2 p q s = (Inl (RejectedAll [e, e']), s'')"
  by (simp add: join2_def)

lemma readManifest_package_json_state:
  "\<exists>r. readManifest_package_json p s = (r, s)"
  by (auto simp: readManifest_package_json_def thenP_def readFile_package_json_def
      parseManifest_def TPromise_as_def TPromise_wrapError_def split: option.splits)

lemma readManifest_package_nls_json_state:
  "\<exists>r. readManifest_package_nls_json p s = (r, s)"
  by (auto simp: readManifest_package_nls_json_def thenP_def otherwise_def
      readFile_package_nls_json_def TPromise_as_def TPromise_wrapError_def fs_error_def
      split: option.splits)

lemma readManifest_state: "snd (readManifest env p s) = s"
proof -
  obtain r1 where r1: "readManifest_package_json p s = (r1, s)"
    using readManifest_package_json_state by blast
  obtain r2 where r2: "readManifest_package_nls_json p s = (r2, s)"
    using readManifest_package_nls_json_state by blast
  show ?thesis
    by (cases r1; cases r2)
       (simp_all add: readManifest_def thenP_def join2_def r1 r2 TPromise_as_def split: prod.splits)
qed


lemma thenP_eq_Inr:
  "thenP p f s = (Inr y, s'') \<longleftrightarrow> (\<exists>x s'. p s = (Inr x, s') \<and> f x s' = (Inr y, s''))"
  by (auto simp: thenP_def split: prod.splits sum.splits)

lemma call_eq: "call r s = (r', s') \<longleftrightarrow> r = r' \<and> s' = s"
  by (auto simp: call_def)

lemma TPromise_as_eq: "TPromise_as x s = (r, s') \<longleftrightarrow> r = Inr x \<and> s' = s"
  by (auto simp: TPromise_as_def)

lemmas promise_defs = thenP_def thenP2_def otherwise_def TPromise_as_def TPromise_wrapError_def
  TPromise_join_def join2_def call_def fireP_def fire_def

lemmas fs_defs = readFile_obsoletePath_def rimraf_obsoletePath_def writeFile_obsoletePath_def
  entries_def lookup_dir_def readdir_root_def readdir_def readFile_package_json_def
  readFile_package_nls_json_def writeFile_package_json_def rimraf_def exists_path_def
  zip_buffer_def zip_extract_def fs_error_def JSON_stringify_def

lemmas scan_defs = getInstalled_def scanSystemExtensions_def scanUserExtensions_def
  scanExtensions_def scanExtensions_each_def scanExtensionFolders_def getObsoleteExtensions_def
  withObsoleteExtensions_def withObsoleteExtensions_read_def withObsoleteExtensions_persist_def
  readManifest_def readManifest_package_json_def readManifest_package_nls_json_def
  parseManifest_def groupBy_def values_of_def semver_rcompare_def first_url_def
  is_readme_def is_changelog_def List.map_filter_def Let_def

lemmas example_defs = empty_state_def example_env_def example_manifest_def example_local_def
  example_dir_def example_gallery_def installed_b_def two_versions_def marked_a_def

lemma toLowerCase_simps [simp]:
  "toLowerCase [] = []"
  "toLowerCase (c # cs) = (let n = (of_char c :: nat) in if 65 \<le> n \<and> n \<le> 90 then char_of (n + 32) else c) # toLowerCase cs"
  by (simp_all add: toLowerCase_def)

subsection \<open>What a scan does to the state\<close>

lemma normalized_simps [simp]:
  "userExtensions (normalized s) = userExtensions s"
  "systemExtensions (normalized s) = systemExtensions s"
  "events (normalized s) = events s"
  "obsoleteFile (normalized s) = persisted (index_of s)"
  "index_of (normalized s) = index_of s"
  "readable (normalized s)"
  "entries r (normalized s) = entries r s"
  "lookup_dir p (normalized s) = lookup_dir p s"
  by (simp_all add: normalized_def entries_def lookup_dir_def split: root.splits)

lemma normalized_idem [simp]: "normalized (normalized s) = normalized s"
  by (simp add: normalized_def)

lemma getObsoleteExtensions_readable:
  "readable s \<Longrightarrow> getObsoleteExtensions s = (Inr (index_of s), normalized s)"
  by (simp add: getObsoleteExtensions_def withObsoleteExtensions_readable normalized_def)

lemma getObsoleteExtensions_unreadable:
  "\<not> readable s \<Longrightarrow> \<exists>e. getObsoleteExtensions s = (Inl e, s)"
  by (simp add: getObsoleteExtensions_def withObsoleteExtensions_unreadable)

lemma readdir_state: "\<exists>r. readdir p s = (r, s)"
  by (simp add: readdir_def split: option.splits)

lemma readManifest_result: "\<exists>r. readManifest env p s = (r, s)"
  using readManifest_state [of env p s] by (cases "readManifest env p s") simp

lemma scanExtensions_each_result:
  "\<exists>x. scanExtensions_each env r t i s = (Inr x, s)"
proof -
  obtain r1 where r1: "readdir (r, i) s = (r1, s)" using readdir_state by blast
  obtain r2 where r2: "readManifest env (r, i) s = (r2, s)" using readManifest_result by blast
  show ?thesis
    by (cases r1; cases r2)
       (auto simp: scanExtensions_each_def Let_def otherwise_def thenP_def r1 r2 TPromise_as_def
          split: prod.splits)
qed

lemma settle_pure:
  "(\<And>p s. p \<in> set ps \<Longrightarrow> \<exists>x. p s = (Inr x, s)) \<Longrightarrow>
   \<exists>xs. settle ps s = (map Inr xs, s) \<and> length xs = length ps"
proof (induction ps)
  case Nil
  then show ?case by simp
next
  case (Cons p ps)
  obtain x where x: "p s = (Inr x, s)" using Cons.prems [of p s] by auto
  obtain xs where xs: "settle ps s = (map Inr xs, s)" "length xs = length ps"
    using Cons.IH Cons.prems by (metis list.set_intros(2))
  have "settle (p # ps) s = (map Inr (x # xs), s) \<and> length (x # xs) = length (p # ps)"
    by (simp add: x xs)
  then show ?case by blast
qed

lemma rejections_map_Inr [simp]: "rejections (map Inr xs) = []"
  by (induction xs) simp_all

lemma completions_map_Inr [simp]: "completions (map Inr xs) = xs"
  by (induction xs) simp_all

lemma TPromise_join_pure:
  "(\<And>p s. p \<in> set ps \<Longrightarrow> \<exists>x. p s = (Inr x, s)) \<Longrightarrow>
   \<exists>xs. TPromise_join ps s = (Inr xs, s) \<and> length xs = length ps"
  using settle_pure [of ps s] by (auto simp: TPromise_join_def)

lemma TPromise_join_map_pure:
  assumes "\<And>i s. \<exists>x. f i s = (Inr x, s)"
  shows "\<exists>xs. TPromise_join (map f ids) s = (Inr xs, s)"
proof -
  have "\<exists>x. p s' = (Inr x, s')" if "p \<in> set (map f ids)" for p s'
  proof -
    from that obtain i where "p = f i" by auto
    then show ?thesis using assms by simp
  qed
  then show ?thesis using TPromise_join_pure [of "map f ids" s] by blast
qed

lemma readdir_root_eq: "readdir_root r s = (Inr (map fst (entries r s)), s)"
  by (simp add: readdir_root_def)

lemma scanExtensionFolders_readable:
  "readable s \<Longrightarrow>
   scanExtensionFolders r s
     = (Inr (filter (\<lambda>i. \<not> (map_of (index_of s) i = Some True)) (map fst (entries r s))),
        normalized s)"
  by (simp add: scanExtensionFolders_def thenP_def getObsoleteExtensions_readable
      readdir_root_eq TPromise_as_def)

lemma scanExtensionFolders_unreadable:
  "\<not> readable s \<Longrightarrow> \<exists>e. scanExtensionFolders r s = (Inl e, s)"
  using getObsoleteExtensions_unreadable [of s]
  by (auto simp: scanExtensionFolders_def thenP_def)

lemma scanExtensions_readable:
  "readable s \<Longrightarrow> \<exists>exts. scanExtensions env r t s = (Inr exts, normalized s)"
proof -
  assume rd: "readable s"
  let ?ids = "filter (\<lambda>i. \<not> (map_of (index_of s) i = Some True)) (map fst (entries r s))"
  obtain xs where xs: "TPromise_join (map (scanExtensions_each env r t) ?ids) (normalized s)
      = (Inr xs, normalized s)"
    using TPromise_join_map_pure [of "scanExtensions_each env r t" ?ids "normalized s"]
      scanExtensions_each_result by blast
  show ?thesis
    by (simp add: scanExtensions_def thenP_def scanExtensionFolders_readable [OF rd] xs TPromise_as_def)
qed

lemma scanExtensions_unreadable:
  "\<not> readable s \<Longrightarrow> \<exists>e. scanExtensions env r t s = (Inl e, s)"
  using scanExtensionFolders_unreadable [of s r]
  by (auto simp: scanExtensions_def thenP_def)

lemma scanExtensions_Inr:
  "scanExtensions env r t s = (Inr exts, s') \<Longrightarrow> readable s \<and> s' = normalized s"
  using scanExtensions_readable [of s env r t] scanExtensions_unreadable [of s env r t]
  by (cases "readable s") auto



subsection \<open>Validation and the check of the index\<close>

lemma zip_buffer_state: "\<exists>r. zip_buffer env zp s = (r, s) \<and> (\<forall>t. zip_buffer env zp t = (r, t))"
  by (auto simp: zip_buffer_def split: option.splits)

lemma parseManifest_state: "\<exists>r. \<forall>t. parseManifest raw t = (r, t)"
  by (auto simp: parseManifest_def TPromise_as_def TPromise_wrapError_def split: option.splits)

lemma validate_state: "\<exists>r. \<forall>t. validate env zp t = (r, t)"
proof -
  obtain r1 where r1: "\<forall>t. zip_buffer env zp t = (r1, t)"
    using zip_buffer_state [of env zp undefined] by blast
  show ?thesis
  proof (cases r1)
    case (Inl e)
    then show ?thesis using r1 by (simp add: validate_def thenP_def)
  next
    case (Inr raw)
    obtain r2 where r2: "\<forall>t. parseManifest raw t = (r2, t)" using parseManifest_state by blast
    show ?thesis using r1 r2 Inr
      by (cases r2) (auto simp: validate_def thenP_def TPromise_as_def split: prod.splits)
  qed
qed

lemma validate_Inr:
  "validate env zp s = (Inr m, s0) \<Longrightarrow> s0 = s \<and> validate env zp t = (Inr m, t)"
  using validate_state [of env zp] by (metis prod.inject)

lemma filterObsolete_readable:
  "readable s \<Longrightarrow>
   filterObsolete ids s = (Inr (filter (\<lambda>i. map_of (index_of s) i = Some True) ids), normalized s)"
  by (simp add: filterObsolete_def withObsoleteExtensions_readable normalized_def)

lemma isObsolete_readable:
  "readable s \<Longrightarrow> isObsolete i s = (Inr (map_of (index_of s) i = Some True), normalized s)"
  by (simp add: isObsolete_def thenP_def filterObsolete_readable TPromise_as_def)

lemma normalized_persisted:
  "obsoleteFile s = persisted (index_of s) \<Longrightarrow> normalized s = s"
  by (simp add: normalized_def)

lemma marked_file:
  "obsoleteFile s = File (Json obsolete) \<Longrightarrow> map_of obsolete i = Some True \<Longrightarrow>
   readable s \<and> index_of s = obsolete \<and> normalized s = s"
  by (auto simp: readable_def index_of_def normalized_def persisted_def)

lemmas install_defs = install_def installExtension_def validate_def isObsolete_def filterObsolete_def
  uninstallExtension_def setObsolete_def unsetObsolete_def


subsection \<open>Operations that fire no event\<close>


lemma keeps_events_thenP:
  "keeps_events p \<Longrightarrow> (\<And>x. keeps_events (f x)) \<Longrightarrow> keeps_events (thenP p f)"
  unfolding keeps_events_def thenP_def
  by (auto split: prod.splits sum.splits) (metis snd_conv)+

lemma keeps_events_thenP2:
  "keeps_events p \<Longrightarrow> (\<And>x. keeps_events (f x)) \<Longrightarrow> (\<And>e. keeps_events (g e))
   \<Longrightarrow> keeps_events (thenP2 p f g)"
  unfolding keeps_events_def thenP2_def
  by (auto split: prod.splits sum.splits) (metis snd_conv)+

lemma keeps_events_otherwise:
  "keeps_events p \<Longrightarrow> (\<And>e. keeps_events (g e)) \<Longrightarrow> keeps_events (otherwise p g)"
  unfolding keeps_events_def otherwise_def
  by (auto split: prod.splits sum.splits) (metis snd_conv)+

lemma keeps_events_join2:
  "keeps_events p \<Longrightarrow> keeps_events q \<Longrightarrow> keeps_events (join2 p q)"
  unfolding keeps_events_def join2_def
  by (auto split: prod.splits sum.splits) (metis snd_conv)+




lemma keeps_events_basic [simp]:
  "keeps_events (TPromise_as x)"
  "keeps_events (TPromise_wrapError e)"
  "keeps_events (call r)"
  "keeps_events readFile_obsoletePath"
  "keeps_events rimraf_obsoletePath"
  "keeps_events (writeFile_obsoletePath raw)"
  "keeps_events (readdir_root rt)"
  "keeps_events (readdir p)"
  "keeps_events (readFile_package_json p)"
  "keeps_events (readFile_package_nls_json p)"
  "keeps_events (writeFile_package_json i mraw)"
  "keeps_events (rimraf i)"
  "keeps_events (exists_path i)"
  "keeps_events (zip_buffer env zp)"
  "keeps_events (zip_extract env zp i)"
  by (auto simp: keeps_events_def promise_defs fs_defs split: obsolete_file.splits option.splits)

lemma keeps_events_parseManifest [simp]: "keeps_events (parseManifest raw)"
  by (simp add: parseManifest_def split: option.splits)

lemma keeps_events_withObsoleteExtensions [simp]: "keeps_events (withObsoleteExtensions fn)"
  unfolding withObsoleteExtensions_def withObsoleteExtensions_read_def
    withObsoleteExtensions_persist_def
  by (auto intro!: keeps_events_thenP keeps_events_otherwise keeps_events_join2
      split: prod.splits option.splits)

lemma keeps_events_validate [simp]: "keeps_events (validate env zp)"
  unfolding validate_def
  by (auto intro!: keeps_events_thenP keeps_events_otherwise keeps_events_join2
      split: prod.splits option.splits)

lemma keeps_events_readManifest [simp]: "keeps_events (readManifest env p)"
  unfolding readManifest_def readManifest_package_json_def readManifest_package_nls_json_def
  by (auto intro!: keeps_events_thenP keeps_events_otherwise keeps_events_join2
      split: prod.splits option.splits)

lemma keeps_events_installExtension [simp]: "keeps_events (installExtension env inst)"
  unfolding installExtension_def Let_def
  by (auto intro!: keeps_events_thenP keeps_events_otherwise keeps_events_join2
      split: prod.splits option.splits)

lemma keeps_events_downloadInstallableExtension [simp]:
  "keeps_events (downloadInstallableExtension env extension)"
  unfolding downloadInstallableExtension_def Let_def
  by (auto intro!: keeps_events_thenP keeps_events_otherwise keeps_events_join2
      split: prod.splits option.splits)

lemma keeps_events_uninstallExtension [simp]: "keeps_events (uninstallExtension i)"
  unfolding uninstallExtension_def setObsolete_def unsetObsolete_def
  by (auto intro!: keeps_events_thenP keeps_events_otherwise keeps_events_join2
      split: prod.splits option.splits)



subsection \<open>Removal and rollback\<close>

lemma readable_userExtensions_update [simp]:
  "readable (s\<lparr>userExtensions := x\<rparr>) = readable s"
  "index_of (s\<lparr>userExtensions := x\<rparr>) = index_of s"
  by (simp_all add: readable_def index_of_def)



lemma rejections_all_Inr [simp]: "rejections (map (\<lambda>_. Inr x) ls) = []"
  by (induction ls) simp_all

lemma completions_all_Inr [simp]: "completions (map (\<lambda>_. Inr x) ls) = map (\<lambda>_. x) ls"
  by (induction ls) simp_all













subsection \<open>One slot serializes the accesses\<close>

lemma run_sequentially_append:
  "run_sequentially (fns @ fns') s
     = then_sequentially (run_sequentially fns s) fns'"
  by (induction fns arbitrary: s) (auto simp: then_sequentially_def split: prod.splits)

lemma consume_idle:
  "outstandingPromises L = [] \<Longrightarrow> consume L = L"
  by (simp add: consume.simps)

lemma consume_busy:
  "maxDegreeOfParalellism L = 1 \<Longrightarrow> runningPromises L = [a] \<Longrightarrow> consume L = L"
  by (simp add: consume.simps split: list.splits)

lemma consume_start:
  "maxDegreeOfParalellism L = 1 \<Longrightarrow> runningPromises L = [] \<Longrightarrow> outstandingPromises L = fn # rest
   \<Longrightarrow> consume L = L\<lparr>outstandingPromises := rest, runningPromises := [Reading fn]\<rparr>"
  by (subst consume.simps, simp) (subst consume.simps, simp split: list.splits)


lemma withObsoleteExtensions_phases:
  "withObsoleteExtensions fn s
     = (case withObsoleteExtensions_read s of
          (Inl e, s') \<Rightarrow> (Inl e, s')
        | (Inr obsolete, s') \<Rightarrow>
            (case fn obsolete of (result, obsolete') \<Rightarrow>
               (case withObsoleteExtensions_persist obsolete' s' of
                  (Inl e, s'') \<Rightarrow> (Inl e, s'')
                | (Inr u, s'') \<Rightarrow> (Inr result, s''))))"
  by (auto simp: withObsoleteExtensions_def thenP_def TPromise_as_def split: prod.splits sum.splits)

lemma single_slot_cases:
  assumes "single_slot L"
  obtains (idle) "runningPromises L = []" "outstandingPromises L = []"
    | (busy) a where "runningPromises L = [a]"
proof (cases "runningPromises L")
  case Nil
  then show ?thesis using assms idle by (simp add: single_slot_def)
next
  case (Cons a as)
  then have "as = []" using assms by (simp add: single_slot_def)
  then show ?thesis using busy Cons by simp
qed

lemma drain_consume:
  assumes "maxDegreeOfParalellism L = 1" "runningPromises L = []"
  shows "single_slot (consume L)"
    and "drain (consume L, s)
           = (case run_sequentially (outstandingPromises L) s of (rs, s') \<Rightarrow> (completed L @ rs, s'))"
proof -
  show "single_slot (consume L)"
  proof (cases "outstandingPromises L")
    case Nil
    then show ?thesis using assms by (simp add: consume_idle single_slot_def)
  next
    case (Cons fn rest)
    then show ?thesis using assms by (simp add: consume_start single_slot_def)
  qed
  show "drain (consume L, s)
           = (case run_sequentially (outstandingPromises L) s of (rs, s') \<Rightarrow> (completed L @ rs, s'))"
  proof (cases "outstandingPromises L")
    case Nil
    then show ?thesis using assms by (simp add: consume_idle drain_def)
  next
    case (Cons fn rest)
    then show ?thesis using assms
      by (simp add: consume_start drain_def split: prod.splits)
  qed
qed

lemma queue_drain:
  assumes "single_slot L"
  shows "single_slot (queue fn L)"
    and "drain (queue fn L, s) = then_sequentially (drain (L, s)) [fn]"
proof -
  from assms have m: "maxDegreeOfParalellism L = 1" by (simp add: single_slot_def)
  from assms show "single_slot (queue fn L)"
  proof (cases rule: single_slot_cases)
    case idle
    then show ?thesis using m
      by (simp add: queue_def consume_start [where fn = fn and rest = "[]"] single_slot_def)
  next
    case (busy a)
    then show ?thesis using m
      by (simp add: queue_def consume_busy [where a = a] single_slot_def)
  qed
  from assms show "drain (queue fn L, s) = then_sequentially (drain (L, s)) [fn]"
  proof (cases rule: single_slot_cases)
    case idle
    then show ?thesis using m
      by (simp add: queue_def consume_start [where fn = fn and rest = "[]"] drain_def
          then_sequentially_def split: prod.splits)
  next
    case (busy a)
    then show ?thesis using m
      by (simp add: queue_def consume_busy [where a = a] drain_def then_sequentially_def
          run_sequentially_append split: prod.splits)
  qed
qed

lemma progress_drain:
  assumes "single_slot L"
  shows "single_slot (fst (progress k (L, s)))"
    and "drain (progress k (L, s)) = drain (L, s)"
proof -
  from assms have m: "maxDegreeOfParalellism L = 1" by (simp add: single_slot_def)
  have both: "single_slot (fst (progress k (L, s))) \<and> drain (progress k (L, s)) = drain (L, s)"
    using assms
  proof (cases rule: single_slot_cases)
    case idle
    then show ?thesis using assms by (simp add: progress_def)
  next
    case (busy a)
    show ?thesis
    proof (cases "k = 0")
      case False
      then show ?thesis using busy assms by (simp add: progress_def)
    next
      case True
      show ?thesis
      proof (cases a)
        case (Reading fn)
        obtain r s' where rd: "withObsoleteExtensions_read s = (r, s')"
          by (cases "withObsoleteExtensions_read s")
        show ?thesis
        proof (cases r)
          case (Inl e)
          let ?L = "L\<lparr>runningPromises := [], completed := completed L @ [Inl e]\<rparr>"
          have p: "progress k (L, s) = (consume ?L, s')"
            using True busy Reading rd Inl by (simp add: progress_def consumed_def)
          have "maxDegreeOfParalellism ?L = 1" "runningPromises ?L = []" using m by simp_all
          from drain_consume [OF this] have
            "single_slot (consume ?L)"
            "drain (consume ?L, s')
               = (case run_sequentially (outstandingPromises L) s' of (rs, s'') \<Rightarrow> (completed L @ [Inl e] @ rs, s''))"
            by simp_all
          moreover have "drain (L, s)
               = (case run_sequentially (outstandingPromises L) s' of (rs, s'') \<Rightarrow> (completed L @ [Inl e] @ rs, s''))"
            using busy Reading rd Inl
            by (simp add: drain_def withObsoleteExtensions_phases split: prod.splits)
          ultimately show ?thesis by (simp add: p)
        next
          case (Inr obsolete)
          obtain result obsolete' where f: "fn obsolete = (result, obsolete')" by (cases "fn obsolete")
          have p: "progress k (L, s) = (L\<lparr>runningPromises := [Persisting result obsolete']\<rparr>, s')"
            using True busy Reading rd Inr f by (simp add: progress_def)
          have "single_slot (L\<lparr>runningPromises := [Persisting result obsolete']\<rparr>)"
            using m by (simp add: single_slot_def)
          moreover have "drain (L\<lparr>runningPromises := [Persisting result obsolete']\<rparr>, s') = drain (L, s)"
            using busy Reading rd Inr f
            by (simp add: drain_def withObsoleteExtensions_phases split: prod.splits sum.splits)
          ultimately show ?thesis by (simp add: p)
        qed
      next
        case (Persisting result obsolete)
        obtain r s' where w: "withObsoleteExtensions_persist obsolete s = (r, s')"
          by (cases "withObsoleteExtensions_persist obsolete s")
        let ?out = "case r of Inl e \<Rightarrow> Inl e | Inr u \<Rightarrow> Inr result"
        let ?L = "L\<lparr>runningPromises := [], completed := completed L @ [?out]\<rparr>"
        have p: "progress k (L, s) = (consume ?L, s')"
          using True busy Persisting w by (cases r) (simp_all add: progress_def consumed_def)
        have "maxDegreeOfParalellism ?L = 1" "runningPromises ?L = []" using m by simp_all
        from drain_consume [OF this] have
          "single_slot (consume ?L)"
          "drain (consume ?L, s')
             = (case run_sequentially (outstandingPromises L) s' of (rs, s'') \<Rightarrow> (completed L @ [?out] @ rs, s''))"
          by simp_all
        moreover have "drain (L, s)
             = (case run_sequentially (outstandingPromises L) s' of (rs, s'') \<Rightarrow> (completed L @ [?out] @ rs, s''))"
          using busy Persisting w by (cases r) (simp_all add: drain_def split: prod.splits)
        ultimately show ?thesis by (simp add: p)
      qed
    qed
  qed
  from both show "single_slot (fst (progress k (L, s)))" by simp
  from both show "drain (progress k (L, s)) = drain (L, s)" by simp
qed

lemma then_sequentially_Nil [simp]: "then_sequentially d [] = d"
  by (simp add: then_sequentially_def split: prod.splits)

lemma then_sequentially_Cons:
  "then_sequentially (then_sequentially d [fn]) fns = then_sequentially d (fn # fns)"
  by (simp add: then_sequentially_def split: prod.splits)

lemma interleave_drain:
  assumes started: "\<And>r L s. start r (L, s) = (queue (handed r) L, s)"
  shows "single_slot L \<Longrightarrow>
   single_slot (fst (interleave sched (L, s)))
   \<and> drain (interleave sched (L, s))
       = then_sequentially (drain (L, s)) (map handed (requests sched))"
proof (induction sched arbitrary: L s)
  case Nil
  then show ?case by simp
next
  case (Cons a sched)
  show ?case
  proof (cases a)
    case (Call r)
    from queue_drain [OF Cons.prems, of "handed r"] have
      q: "single_slot (queue (handed r) L)"
        "drain (queue (handed r) L, s) = then_sequentially (drain (L, s)) [handed r]"
      by simp_all
    from Cons.IH [OF q(1), of s] show ?thesis
      by (simp add: Call started q(2) then_sequentially_Cons)
  next
    case (FileStep k)
    obtain L' s' where c: "progress k (L, s) = (L', s')" by (cases "progress k (L, s)")
    from progress_drain [OF Cons.prems, of k s] c have
      p: "single_slot L'" "drain (L', s') = drain (L, s)"
      by simp_all
    from Cons.IH [OF p(1), of s'] show ?thesis
      by (simp add: FileStep c p(2))
  qed
qed

lemma drain_quiescent: "quiescent L \<Longrightarrow> drain (L, s) = (completed L, s)"
  by (simp add: drain_def quiescent_def)

lemma interleave_append: "interleave (as @ bs) c = interleave bs (interleave as c)"
  by (induction as c rule: interleave.induct) simp_all

lemma work_consume:
  assumes "maxDegreeOfParalellism L = 1" "runningPromises L = []"
  shows "work (consume L) = 2 * length (outstandingPromises L)"
proof (cases "outstandingPromises L")
  case Nil
  then show ?thesis using assms by (simp add: consume_idle work.simps)
next
  case (Cons fn rest)
  then show ?thesis using assms by (simp add: consume_start work.simps)
qed

lemma work_progress:
  assumes "single_slot L"
  shows "work (fst (progress 0 (L, s))) \<le> work L - 1"
  using assms
proof (cases rule: single_slot_cases)
  case idle
  then show ?thesis by (simp add: progress_def work.simps)
next
  case (busy a)
  from assms have m: "maxDegreeOfParalellism L = 1" by (simp add: single_slot_def)
  show ?thesis
  proof (cases a)
    case (Reading fn)
    obtain r s' where rd: "withObsoleteExtensions_read s = (r, s')"
      by (cases "withObsoleteExtensions_read s")
    show ?thesis
    proof (cases r)
      case (Inl e)
      let ?L = "L\<lparr>runningPromises := [], completed := completed L @ [Inl e]\<rparr>"
      have p: "progress 0 (L, s) = (consume ?L, s')"
        using busy Reading rd Inl by (simp add: progress_def consumed_def)
      have "work (consume ?L) = 2 * length (outstandingPromises L)"
        using work_consume [of ?L] m by simp
      then show ?thesis using busy Reading by (simp add: p work.simps)
    next
      case (Inr obsolete)
      obtain result obsolete' where f: "fn obsolete = (result, obsolete')" by (cases "fn obsolete")
      have p: "progress 0 (L, s) = (L\<lparr>runningPromises := [Persisting result obsolete']\<rparr>, s')"
        using busy Reading rd Inr f by (simp add: progress_def)
      show ?thesis using busy Reading by (simp add: p work.simps)
    qed
  next
    case (Persisting result obsolete)
    obtain r s' where w: "withObsoleteExtensions_persist obsolete s = (r, s')"
      by (cases "withObsoleteExtensions_persist obsolete s")
    let ?out = "case r of Inl e \<Rightarrow> Inl e | Inr u \<Rightarrow> Inr result"
    let ?L = "L\<lparr>runningPromises := [], completed := completed L @ [?out]\<rparr>"
    have p: "progress 0 (L, s) = (consume ?L, s')"
      using busy Persisting w by (cases r) (simp_all add: progress_def consumed_def)
    have "work (consume ?L) = 2 * length (outstandingPromises L)"
      using work_consume [of ?L] m by simp
    then show ?thesis using busy Persisting by (simp add: p work.simps)
  qed
qed

lemma work_0_quiescent: "single_slot L \<Longrightarrow> work L = 0 \<Longrightarrow> quiescent L"
  by (cases "runningPromises L")
     (auto simp: work.simps quiescent_def single_slot_def split: access.splits)

lemma accesses_complete:
  "single_slot L \<Longrightarrow> work L \<le> n
   \<Longrightarrow> quiescent (fst (interleave (replicate n (FileStep 0)) (L, s)))"
proof (induction n arbitrary: L s)
  case 0
  then show ?case by (simp add: work_0_quiescent)
next
  case (Suc n)
  obtain L' s' where c: "progress 0 (L, s) = (L', s')" by (cases "progress 0 (L, s)")
  have "single_slot L'" using progress_drain(1) [OF Suc.prems(1), of 0 s] c by simp
  moreover have "work L' \<le> n" using work_progress [OF Suc.prems(1), of s] c Suc.prems(2) by simp
  ultimately show ?case using Suc.IH [of L' s'] by (simp add: c)
qed

lemma run_sequentially_marks:
  "readable s \<Longrightarrow>
   \<exists>s'. run_sequentially (map (\<lambda>i. handed (SetObsolete i)) ids) s
          = (map (\<lambda>_. Inr Void) ids, s')
      \<and> readable s'
      \<and> (\<forall>k. map_of (index_of s') k = (if k \<in> set ids then Some True else map_of (index_of s) k))
      \<and> (ids \<noteq> [] \<longrightarrow> obsoleteFile s' = File (Json (index_of s')))"
proof (induction ids arbitrary: s)
  case Nil
  then show ?case by simp
next
  case (Cons i ids)
  let ?s1 = "s\<lparr>obsoleteFile := persisted (AList.update i True (index_of s))\<rparr>"
  have step: "withObsoleteExtensions (handed (SetObsolete i)) s = (Inr Void, ?s1)"
    using Cons.prems by (simp add: withObsoleteExtensions_readable)
  have rd: "readable ?s1" and idx: "index_of ?s1 = AList.update i True (index_of s)"
    and written: "obsoleteFile ?s1 = File (Json (index_of ?s1))"
    by (simp_all add: persisted_def)
  from Cons.IH [OF rd] obtain s' where s':
    "run_sequentially (map (\<lambda>i. handed (SetObsolete i)) ids) ?s1
       = (map (\<lambda>_. Inr Void) ids, s')"
    "readable s'"
    "\<forall>k. map_of (index_of s') k = (if k \<in> set ids then Some True else map_of (index_of ?s1) k)"
    "ids \<noteq> [] \<longrightarrow> obsoleteFile s' = File (Json (index_of s'))"
    by blast
  have run: "run_sequentially (map (\<lambda>i. handed (SetObsolete i)) (i # ids)) s
       = (map (\<lambda>_. Inr Void) (i # ids), s')"
    using step s'(1) by simp
  have lookup: "\<forall>k. map_of (index_of s') k
       = (if k \<in> set (i # ids) then Some True else map_of (index_of s) k)"
    using s'(3) by (simp add: idx update_conv')
  have "obsoleteFile s' = File (Json (index_of s'))"
  proof (cases "ids = []")
    case True
    then have "s' = ?s1" using s'(1) by simp
    then show ?thesis using written by simp
  next
    case False
    then show ?thesis using s'(4) by simp
  qed
  then show ?case using run s'(2) lookup by blast
qed

lemma withObsoleteExtensions_then:
  "thenP (withObsoleteExtensions fn) (\<lambda>x. TPromise_as (g x))
     = withObsoleteExtensions (\<lambda>obsolete. case fn obsolete of (x, obsolete') \<Rightarrow> (g x, obsolete'))"
proof
  fix s
  show "thenP (withObsoleteExtensions fn) (\<lambda>x. TPromise_as (g x)) s
     = withObsoleteExtensions (\<lambda>obsolete. case fn obsolete of (x, obsolete') \<Rightarrow> (g x, obsolete')) s"
    by (simp add: thenP_def [of "withObsoleteExtensions fn"] withObsoleteExtensions_phases
        TPromise_as_def split: prod.splits sum.splits)
qed

text \<open>
  The operation that a caller waits for is the call queued on the limiter with nothing
  else in flight, and its two file steps done.
\<close>

lemma withObsoleteExtensions_waited:
  "progress 0 (progress 0 (withObsoleteExtensions_queued fn (obsoleteFileLimiter, s)))
     = (obsoleteFileLimiter\<lparr>completed := [fst (withObsoleteExtensions fn s)]\<rparr>,
        snd (withObsoleteExtensions fn s))"
proof -
  have queued: "withObsoleteExtensions_queued fn (obsoleteFileLimiter, s)
      = (obsoleteFileLimiter\<lparr>runningPromises := [Reading fn]\<rparr>, s)"
    by (simp add: withObsoleteExtensions_queued_def obsoleteFileLimiter_def new_Limiter_def
        queue_def consume.simps)
  obtain r1 s1 where rd: "withObsoleteExtensions_read s = (r1, s1)"
    by (cases "withObsoleteExtensions_read s")
  show ?thesis
  proof (cases r1)
    case (Inl e)
    then show ?thesis
      unfolding queued using rd
      by (simp add: withObsoleteExtensions_phases progress_def consumed_def consume.simps
          obsoleteFileLimiter_def new_Limiter_def)
  next
    case (Inr obsolete)
    obtain result obsolete' where f: "fn obsolete = (result, obsolete')"
      by (cases "fn obsolete")
    obtain r2 s2 where w: "withObsoleteExtensions_persist obsolete' s1 = (r2, s2)"
      by (cases "withObsoleteExtensions_persist obsolete' s1")
    show ?thesis
      unfolding queued using rd Inr f w
      by (cases r2)
         (simp_all add: withObsoleteExtensions_phases progress_def consumed_def consume.simps
            obsoleteFileLimiter_def new_Limiter_def)
  qed
qed

lemmas limiter_defs = obsoleteFileLimiter_def new_Limiter_def queue_def consumed_def progress_def
  quiescent_def consume.simps filterObsolete_queued_def setObsolete_queued_def
  unsetObsolete_queued_def getObsoleteExtensions_queued_def withObsoleteExtensions_queued_def

text \<open>
  With two slots the same two marks can lose an update: both accesses read the file
  before either writes it, and the second write overwrites the first.
\<close>

lemma two_slots_lose_an_update:
  "interleave [Call (SetObsolete ''a''), Call (SetObsolete ''b''),
               FileStep 0, FileStep 1, FileStep 0, FileStep 0] (new_Limiter 2, empty_state)
     = (\<lparr>maxDegreeOfParalellism = 2, outstandingPromises = [], runningPromises = [],
          completed = [Inr Void, Inr Void]\<rparr>,
        empty_state\<lparr>obsoleteFile := File (Json [(''b'', True)])\<rparr>)"
  by (simp add: limiter_defs withObsoleteExtensions_read_def withObsoleteExtensions_persist_def
      promise_defs fs_defs example_defs)


subsection \<open>Error aggregation\<close>

lemma foldl_joinErrors_step_message:
  "acc \<noteq> [] \<Longrightarrow>
   message (foldl joinErrors_step (new_Error acc) es)
     = acc @ concat (map (\<lambda>e. '','' @ message_of e) es)"
proof (induction es arbitrary: acc)
  case Nil
  then show ?case by (simp add: new_Error_def)
next
  case (Cons e es)
  have step: "joinErrors_step (new_Error acc) e = new_Error (acc @ '','' @ message_of e)"
    using Cons.prems by (simp add: joinErrors_step_def new_Error_def)
  have "acc @ '','' @ message_of e \<noteq> []" using Cons.prems by simp
  from Cons.IH [OF this] show ?case by (simp add: step)
qed

lemma foldl_joinErrors_step_is_new_Error:
  "foldl joinErrors_step (new_Error acc) es
     = new_Error (message (foldl joinErrors_step (new_Error acc) es))"
proof (induction es arbitrary: acc)
  case Nil
  then show ?case by (simp add: new_Error_def)
next
  case (Cons e es)
  have "joinErrors_step (new_Error acc) e
          = new_Error (message (joinErrors_step (new_Error acc) e))"
    by (simp add: joinErrors_step_def new_Error_def)
  then show ?case using Cons.IH by (metis foldl_Cons)
qed

lemma concat_with_Cons:
  "ms \<noteq> [] \<Longrightarrow> concat_with sep (m # ms) = m @ sep @ concat_with sep ms"
  by (cases ms) simp_all

lemma concat_with_prefixed:
  "concat_with sep (m # ms) = m @ concat (map (\<lambda>x. sep @ x) ms)"
  by (induction ms arbitrary: m) simp_all

lemma foldl_joinErrors_step_empty:
  "message (foldl joinErrors_step (new_Error []) es)
     = concat_with '','' (dropWhile (\<lambda>m. m = []) (map message_of es))"
proof (induction es)
  case Nil
  then show ?case by (simp add: new_Error_def)
next
  case (Cons e es)
  show ?case
  proof (cases "message_of e = []")
    case True
    then have "joinErrors_step (new_Error []) e = new_Error []"
      by (simp add: joinErrors_step_def new_Error_def)
    then show ?thesis using Cons.IH True by simp
  next
    case False
    then have "joinErrors_step (new_Error []) e = new_Error (message_of e)"
      by (simp add: joinErrors_step_def new_Error_def)
    then show ?thesis
      using False foldl_joinErrors_step_message [OF False, of es]
      by (simp add: concat_with_prefixed comp_def)
  qed
qed

text \<open>
  C9, as the specification states it: two or more messages are joined with the
  separator \<open>'', ''\<close> (comma, space). The source writes \<^verbatim>\<open>','\<close>: the errors
  \<^verbatim>\<open>"a"\<close> and \<^verbatim>\<open>"b"\<close> give the message \<^verbatim>\<open>"a,b"\<close>, not \<^verbatim>\<open>"a, b"\<close>.
\<close>

theorem joinErrors_comma_space_counterexample:
  "message (joinErrors [IsString ''a'', IsString ''b''])
     \<noteq> concat_with '', '' (map message_of [IsString ''a'', IsString ''b''])
   \<and> message (joinErrors [IsString ''a'', IsString ''b'']) = ''a,b''"
  by (simp add: joinErrors_def joinErrors_step_def new_Error_def)

text \<open>
  C9, amended. For a list of exactly one element \<^verbatim>\<open>joinErrors\<close> returns that
  element: the very error object when it is an \<^verbatim>\<open>Error\<close> (name, message and code
  kept), a new \<^verbatim>\<open>Error\<close> around a plain string. For a list of two or more
  elements it returns a new plain \<^verbatim>\<open>Error\<close> whose message is the concatenation of
  the messages separated by \<^verbatim>\<open>","\<close> (a comma, no space), where messages met while
  the accumulated text is still empty (leading empty messages) add nothing, not even
  a separator.
\<close>

theorem joinErrors_spec:
  "joinErrors [IsError err] = err
   \<and> joinErrors [IsString s] = new_Error s
   \<and> (2 \<le> length errors \<longrightarrow>
        joinErrors errors
          = new_Error (concat_with '','' (dropWhile (\<lambda>m. m = []) (map message_of errors))))"
proof (intro conjI impI)
  show "joinErrors [IsError err] = err" by (simp add: joinErrors_def)
  show "joinErrors [IsString s] = new_Error s" by (simp add: joinErrors_def)
next
  assume len: "2 \<le> length errors"
  then obtain e e' es where errors: "errors = e # e' # es"
    by (cases errors; cases "tl errors") auto
  then have "joinErrors errors = foldl joinErrors_step (new_Error []) errors"
    by (simp add: joinErrors_def)
  also have "\<dots> = new_Error (message (foldl joinErrors_step (new_Error []) errors))"
    by (rule foldl_joinErrors_step_is_new_Error)
  finally show "joinErrors errors
      = new_Error (concat_with '','' (dropWhile (\<lambda>m. m = []) (map message_of errors)))"
    by (simp only: foldl_joinErrors_step_empty)
qed

theorem joinErrors_spec_witness:
  "2 \<le> length [IsString ''x'', IsError (new_Error ''y''), IsString ''z'']
   \<and> joinErrors [IsString ''x'', IsError (new_Error ''y''), IsString ''z'']
       = new_Error ''x,y,z''"
  using joinErrors_spec [of undefined undefined
          "[IsString ''x'', IsError (new_Error ''y''), IsString ''z'']"]
  by (simp add: new_Error_def)

subsection \<open>The index file exists exactly when the mapping is not empty\<close>

text \<open>
  C7. An access of the Obsolete Index that completes leaves the backing file on disk
  if and only if the mapping it leaves is not empty: an empty mapping removes the
  file, any other is written, and the file then holds that mapping. A missing file is
  read as the empty mapping. A sequence of one or more mark and unmark operations,
  on an index that can be read, completes, and afterwards the file is missing if and
  only if no identifier is left marked.
\<close>

theorem obsolete_file_exists_iff_nonempty:
  "(withObsoleteExtensions fn s = (Inr r, s') \<longrightarrow>
      (obsoleteFile s' = NoFile \<longleftrightarrow> snd (fn (index_of s)) = [])
      \<and> (snd (fn (index_of s)) \<noteq> [] \<longrightarrow> obsoleteFile s' = File (Json (snd (fn (index_of s)))))
      \<and> index_of s' = snd (fn (index_of s)))
   \<and> (obsoleteFile s = NoFile \<longrightarrow> getObsoleteExtensions s = (Inr [], s))
   \<and> (readable s \<and> ops \<noteq> [] \<longrightarrow>
        (\<exists>s''. apply_ops ops s = (Inr (), s'')
           \<and> (obsoleteFile s'' = NoFile \<longleftrightarrow> marked_after ops (fst ` set (index_of s)) = {})))"
proof (intro conjI impI)
  assume run: "withObsoleteExtensions fn s = (Inr r, s')"
  then have "readable s" by (rule withObsoleteExtensions_Inr_readable)
  then have s': "s' = s\<lparr>obsoleteFile := persisted (snd (fn (index_of s)))\<rparr>"
    using run by (simp add: withObsoleteExtensions_readable)
  show "obsoleteFile s' = NoFile \<longleftrightarrow> snd (fn (index_of s)) = []" by (simp add: s')
  show "index_of s' = snd (fn (index_of s))" by (simp add: s')
  assume "snd (fn (index_of s)) \<noteq> []"
  then show "obsoleteFile s' = File (Json (snd (fn (index_of s))))"
    by (simp add: s' persisted_def)
next
  assume absent: "obsoleteFile s = NoFile"
  then have "readable s" "index_of s = []" by (simp_all add: readable_def index_of_def)
  then show "getObsoleteExtensions s = (Inr [], s)"
    using absent by (simp add: getObsoleteExtensions_def withObsoleteExtensions_readable persisted_def)
next
  assume "readable s \<and> ops \<noteq> []"
  then obtain s'' where s'': "apply_ops ops s = (Inr (), s'')"
    "obsoleteFile s'' = persisted (index_of s'')"
    "fst ` set (index_of s'') = marked_after ops (fst ` set (index_of s))"
    using apply_ops_readable [of s ops] by blast
  have "obsoleteFile s'' = NoFile \<longleftrightarrow> fst ` set (index_of s'') = {}"
    by (simp add: s''(2))
  then show "\<exists>s''. apply_ops ops s = (Inr (), s'')
      \<and> (obsoleteFile s'' = NoFile \<longleftrightarrow> marked_after ops (fst ` set (index_of s)) = {})"
    using s'' by auto
qed

theorem obsolete_file_exists_iff_nonempty_witness:
  "readable empty_state
   \<and> setObsolete ''a'' empty_state = (Inr (), empty_state\<lparr>obsoleteFile := File (Json [(''a'', True)])\<rparr>)
   \<and> apply_ops [Mark ''a'', Mark ''b'', Unmark ''a'', Unmark ''b''] empty_state = (Inr (), empty_state)"
proof -
  have r: "readable empty_state" by (simp add: readable_def empty_state_def)
  have i: "index_of empty_state = []" by (simp add: index_of_def empty_state_def)
  have set_a: "setObsolete ''a'' empty_state
      = (Inr (), empty_state\<lparr>obsoleteFile := File (Json [(''a'', True)])\<rparr>)"
    by (simp add: setObsolete_readable r i persisted_def)
  from obsolete_file_exists_iff_nonempty
    [of "\<lambda>obsolete. ((), AList.update ''a'' True obsolete)" empty_state "()"
        "empty_state\<lparr>obsoleteFile := File (Json [(''a'', True)])\<rparr>"
        "[Mark ''a'', Mark ''b'', Unmark ''a'', Unmark ''b'']"]
  obtain s'' where s'':
    "apply_ops [Mark ''a'', Mark ''b'', Unmark ''a'', Unmark ''b''] empty_state = (Inr (), s'')"
    "obsoleteFile s'' = NoFile"
    using r i by auto
  from apply_ops_readable [OF r, of "[Mark ''a'', Mark ''b'', Unmark ''a'', Unmark ''b'']"] s''
  have "s'' = empty_state" by (auto simp: empty_state_def)
  then show ?thesis using r set_a s'' by simp
qed


subsection \<open>An index file that is not JSON\<close>

text \<open>
  C10. When the index file exists and its text is not valid JSON, an access does not
  fail: the text is read as the empty mapping, so the access completes with what
  \<open>fn\<close> makes of the empty mapping and persists that (what the file held is gone).
  The readers of the manifest and of the translated texts do not do so: there a text
  that does not parse is an error, the \<^verbatim>\<open>invalidManifest\<close> error of \<open>parseManifest\<close>
  and the \<^verbatim>\<open>SyntaxError\<close> of the unguarded \<^verbatim>\<open>JSON.parse\<close>, and \<open>readManifest\<close> is
  rejected with it.
\<close>

theorem obsolete_index_invalid_json:
  "(obsoleteFile s = File (NotJson t) \<longrightarrow>
      withObsoleteExtensions fn s
        = (Inr (fst (fn [])),
           s\<lparr>obsoleteFile := (if snd (fn []) = [] then NoFile else File (Json (snd (fn []))))\<rparr>))
   \<and> parseManifest (NotJson t) s = (Inl (Rejected (new_Error invalidManifest)), s)
   \<and> (lookup_dir p s = Some d \<and> package_json d = Some (NotJson t) \<longrightarrow>
        (\<exists>es. readManifest env p s = (Inl (RejectedAll es), s)
            \<and> Rejected (new_Error invalidManifest) \<in> set es))
   \<and> (lookup_dir p s = Some d \<and> package_nls_json d = Some (NotJson t) \<longrightarrow>
        (\<exists>es. readManifest env p s = (Inl (RejectedAll es), s)
            \<and> Rejected SyntaxError \<in> set es))"
proof (intro conjI impI)
  assume "obsoleteFile s = File (NotJson t)"
  then have "readable s" "index_of s = []" by (simp_all add: readable_def index_of_def)
  then show "withObsoleteExtensions fn s
        = (Inr (fst (fn [])),
           s\<lparr>obsoleteFile := (if snd (fn []) = [] then NoFile else File (Json (snd (fn []))))\<rparr>)"
    by (simp add: withObsoleteExtensions_readable persisted_def)
next
  show "parseManifest (NotJson t) s = (Inl (Rejected (new_Error invalidManifest)), s)"
    by (simp add: parseManifest_def TPromise_wrapError_def)
next
  assume "lookup_dir p s = Some d \<and> package_json d = Some (NotJson t)"
  then have m: "readManifest_package_json p s = (Inl (Rejected (new_Error invalidManifest)), s)"
    by (simp add: readManifest_package_json_def thenP_def readFile_package_json_def
        parseManifest_def TPromise_wrapError_def)
  obtain r2 where r2: "readManifest_package_nls_json p s = (r2, s)"
    using readManifest_package_nls_json_state by blast
  show "\<exists>es. readManifest env p s = (Inl (RejectedAll es), s)
            \<and> Rejected (new_Error invalidManifest) \<in> set es"
    by (cases r2) (simp_all add: readManifest_def thenP_def join2_def m r2)
next
  assume "lookup_dir p s = Some d \<and> package_nls_json d = Some (NotJson t)"
  then have n: "readManifest_package_nls_json p s = (Inl (Rejected SyntaxError), s)"
    by (simp add: readManifest_package_nls_json_def thenP_def otherwise_def
        readFile_package_nls_json_def TPromise_wrapError_def)
  obtain r1 where r1: "readManifest_package_json p s = (r1, s)"
    using readManifest_package_json_state by blast
  show "\<exists>es. readManifest env p s = (Inl (RejectedAll es), s) \<and> Rejected SyntaxError \<in> set es"
    by (cases r1) (simp_all add: readManifest_def thenP_def join2_def n r1)
qed

theorem obsolete_index_invalid_json_witness:
  "obsoleteFile garbage_state = File (NotJson ''{not json'')
   \<and> getObsoleteExtensions garbage_state = (Inr [], garbage_state\<lparr>obsoleteFile := NoFile\<rparr>)
   \<and> setObsolete ''x'' garbage_state
       = (Inr (), garbage_state\<lparr>obsoleteFile := File (Json [(''x'', True)])\<rparr>)
   \<and> (\<exists>es. readManifest example_env (ExtensionsPath, ''pub.ext-1.0.0'') garbage_state
              = (Inl (RejectedAll es), garbage_state)
          \<and> Rejected (new_Error invalidManifest) \<in> set es
          \<and> Rejected SyntaxError \<in> set es)"
proof -
  let ?d = "\<lparr>package_json = Some (NotJson ''{''), package_nls_json = Some (NotJson ''[''),
             children = []\<rparr>"
  let ?p = "(ExtensionsPath, ''pub.ext-1.0.0'')"
  have f: "obsoleteFile garbage_state = File (NotJson ''{not json'')"
    by (simp add: garbage_state_def)
  have d: "lookup_dir ?p garbage_state = Some ?d"
    by (simp add: lookup_dir_def entries_def garbage_state_def)
  have g: "getObsoleteExtensions garbage_state = (Inr [], garbage_state\<lparr>obsoleteFile := NoFile\<rparr>)"
    using obsolete_index_invalid_json
      [of garbage_state "''{not json''" "\<lambda>obsolete. (obsolete, obsolete)" ?p ?d example_env] f
    by (simp add: getObsoleteExtensions_def)
  have m: "setObsolete ''x'' garbage_state
       = (Inr (), garbage_state\<lparr>obsoleteFile := File (Json [(''x'', True)])\<rparr>)"
    using obsolete_index_invalid_json
      [of garbage_state "''{not json''" "\<lambda>obsolete. ((), AList.update ''x'' True obsolete)" ?p ?d
          example_env] f
    by (simp add: setObsolete_def)
  have r1: "\<exists>es. readManifest example_env ?p garbage_state = (Inl (RejectedAll es), garbage_state)
          \<and> Rejected (new_Error invalidManifest) \<in> set es"
    using obsolete_index_invalid_json
      [of garbage_state "''{''" "\<lambda>obsolete. (obsolete, obsolete)" ?p ?d example_env] d
    by simp
  have r2: "\<exists>es. readManifest example_env ?p garbage_state = (Inl (RejectedAll es), garbage_state)
          \<and> Rejected SyntaxError \<in> set es"
    using obsolete_index_invalid_json
      [of garbage_state "''[''" "\<lambda>obsolete. (obsolete, obsolete)" ?p ?d example_env] d
    by simp
  from r1 r2 have r: "\<exists>es. readManifest example_env ?p garbage_state
              = (Inl (RejectedAll es), garbage_state)
          \<and> Rejected (new_Error invalidManifest) \<in> set es
          \<and> Rejected SyntaxError \<in> set es"
    by auto
  show ?thesis using f g m r by blast
qed


subsection \<open>The dependent-safety filter\<close>

lemma getDependents_eq: "getDependents env d installed = filter (\<lambda>e. depends_on env e d) installed"
  by (simp add: getDependents_def depends_on_def)

lemma splice1_at_length:
  "splice1 (int (length xs)) (xs @ y # ys) = xs @ ys"
  by (simp add: splice1_def Let_def)

declare filterDependents_loop.simps [simp del]

lemma filterDependents_loop_filter:
  assumes "i \<le> length dependencies"
  shows "filterDependents_loop env dependencies installed i
           (filter (\<lambda>d. filter (\<lambda>e. e \<notin> set dependencies) (getDependents env d installed) = [])
                   (take i dependencies) @ drop i dependencies)
         = filter (\<lambda>d. filter (\<lambda>e. e \<notin> set dependencies) (getDependents env d installed) = [])
                  dependencies"
  using assms
proof (induction "length dependencies - i" arbitrary: i)
  case 0
  then have "i = length dependencies" by simp
  then show ?case by (simp add: filterDependents_loop.simps)
next
  case (Suc n)
  let ?keep = "\<lambda>d. filter (\<lambda>e. e \<notin> set dependencies) (getDependents env d installed) = []"
  let ?F = "filter ?keep (take i dependencies)"
  from Suc.hyps(2) have i: "i < length dependencies" by simp
  have dropi: "drop i dependencies = dependencies ! i # drop (Suc i) dependencies"
    using i by (simp add: Cons_nth_drop_Suc)
  have takei: "take (Suc i) dependencies = take i dependencies @ [dependencies ! i]"
    using i by (simp add: take_Suc_conv_app_nth)
  have lenF: "length ?F \<le> i" using i
    by (metis length_filter_le length_take min.absorb2 less_imp_le_nat)
  have idx: "int i - (int (length dependencies) - int (length (?F @ drop i dependencies)))
      = int (length ?F)"
    using i by simp
  have IH: "filterDependents_loop env dependencies installed (Suc i)
      (filter ?keep (take (Suc i) dependencies) @ drop (Suc i) dependencies)
      = filter ?keep dependencies"
    using Suc.hyps(1) [of "Suc i"] Suc.hyps(2) i by simp
  show ?case
  proof (cases "?keep (dependencies ! i)")
    case True
    then have next_result: "filter ?keep (take (Suc i) dependencies) @ drop (Suc i) dependencies
        = ?F @ drop i dependencies"
      by (simp add: takei dropi)
    show ?thesis
      apply (subst filterDependents_loop.simps)
      using i True IH next_result by (simp add: Let_def)
  next
    case False
    then have next_result: "filter ?keep (take (Suc i) dependencies) @ drop (Suc i) dependencies
        = ?F @ drop (Suc i) dependencies"
      by (simp add: takei)
    have "splice1 (int i - (int (length dependencies) - int (length (?F @ drop i dependencies))))
            (?F @ drop i dependencies) = ?F @ drop (Suc i) dependencies"
      unfolding idx by (subst dropi) (rule splice1_at_length)
    then show ?thesis
      apply (subst filterDependents_loop.simps)
      using i False IH next_result by (simp add: Let_def)
  qed
qed

text \<open>
  C4. For a target, a dependency set and an installed set, \<open>filterDependents\<close> (the
  loop with its index arithmetic) removes from the dependency set exactly the members
  that have at least one dependent among the installed extensions which is neither
  the target nor a member of the dependency set; every other member is kept, in its
  order.
\<close>

theorem filterDependents_removes_outside_dependents:
  "filterDependents env extension dependencies installed
     = filter (\<lambda>d. \<not> has_outside_dependent env extension dependencies installed d) dependencies"
proof -
  let ?installed' = "filter (\<lambda>i. i \<noteq> extension
                        \<and> (case extensionDependencies (manifest i) of
                             None \<Rightarrow> False
                           | Some deps \<Rightarrow> length deps > 0)) installed"
  have keep: "(filter (\<lambda>e. e \<notin> set dependencies) (getDependents env d ?installed') = [])
      \<longleftrightarrow> \<not> has_outside_dependent env extension dependencies installed d" for d
  proof -
    have nonempty: "depends_on env e d \<Longrightarrow>
        (case extensionDependencies (manifest e) of None \<Rightarrow> False | Some deps \<Rightarrow> length deps > 0)" for e
      by (auto simp: depends_on_def split: option.splits)
    show ?thesis
      using nonempty
      by (auto simp: getDependents_eq has_outside_dependent_def filter_empty_conv)
  qed
  have "filterDependents env extension dependencies installed
      = filterDependents_loop env dependencies ?installed' 0
          (filter (\<lambda>d. filter (\<lambda>e. e \<notin> set dependencies) (getDependents env d ?installed') = [])
                  (take 0 dependencies) @ drop 0 dependencies)"
    by (simp add: filterDependents_def)
  also have "\<dots> = filter (\<lambda>d. filter (\<lambda>e. e \<notin> set dependencies) (getDependents env d ?installed') = [])
                  dependencies"
    by (rule filterDependents_loop_filter) simp
  finally show ?thesis by (simp add: keep)
qed


lemma example_depends_on:
  "depends_on example_env (example_local n v deps) (example_local n' v' deps')
     \<longleftrightarrow> (case deps of None \<Rightarrow> False | Some ds \<Rightarrow> ''pub.'' @ toLowerCase n' \<in> set ds)"
  by (cases deps) (simp_all add: depends_on_def example_env_def example_local_def example_manifest_def)

lemma example_local_eq [simp]:
  "example_local n v deps = example_local n' v' deps' \<longleftrightarrow> n = n' \<and> v = v' \<and> deps = deps'"
  by (auto simp: example_local_def example_manifest_def)

theorem filterDependents_removes_outside_dependents_witness:
  "filterDependents example_env (example_local ''a'' ''1.0.0'' (Some [''pub.b'']))
     [example_local ''b'' ''1.0.0'' None]
     [example_local ''a'' ''1.0.0'' (Some [''pub.b'']), example_local ''b'' ''1.0.0'' None]
     = [example_local ''b'' ''1.0.0'' None]
   \<and> filterDependents example_env (example_local ''a'' ''1.0.0'' (Some [''pub.b'']))
     [example_local ''b'' ''1.0.0'' None]
     [example_local ''a'' ''1.0.0'' (Some [''pub.b'']), example_local ''b'' ''1.0.0'' None,
      example_local ''c'' ''1.0.0'' (Some [''pub.b''])]
     = []"
  using filterDependents_removes_outside_dependents
    [of example_env "example_local ''a'' ''1.0.0'' (Some [''pub.b''])"
        "[example_local ''b'' ''1.0.0'' None]"
        "[example_local ''a'' ''1.0.0'' (Some [''pub.b'']), example_local ''b'' ''1.0.0'' None]"]
    filterDependents_removes_outside_dependents
    [of example_env "example_local ''a'' ''1.0.0'' (Some [''pub.b''])"
        "[example_local ''b'' ''1.0.0'' None]"
        "[example_local ''a'' ''1.0.0'' (Some [''pub.b'']), example_local ''b'' ''1.0.0'' None,
          example_local ''c'' ''1.0.0'' (Some [''pub.b''])]"]
  by (simp add: has_outside_dependent_def example_depends_on)


subsection \<open>Dependents that block an uninstall\<close>

lemma TPromise_join_not_Rejected: "fst (TPromise_join ps s) \<noteq> Inl (Rejected e)"
  by (simp add: TPromise_join_def split: prod.splits)

lemma thenP_unit_not_Rejected:
  "fst (p s) \<noteq> Inl (Rejected e) \<Longrightarrow> fst (thenP p (\<lambda>_. TPromise_as x) s) \<noteq> Inl (Rejected e)"
  by (auto simp: thenP_def TPromise_as_def split: prod.splits sum.splits)

text \<open>
  C6. The blocking dependents of a target are the installed extensions that declare
  it as a dependency and are neither the target nor among the dependencies that
  \<open>filterDependents\<close> leaves for removal. With one blocking dependent
  \<open>uninstallWithDependencies\<close> is rejected, before anything is removed, with an error
  whose message names that one; with two, with the message that names both; with
  three or more, with the message that names the first two "and others". With none
  it runs the removals, and is never rejected with a single error: it completes or is
  rejected with the array of the removals' errors.
\<close>

theorem uninstall_blocked_by_dependents:
  "(blocking_dependents env extension dependencies installed = [] \<longrightarrow>
      uninstallWithDependencies env extension dependencies installed s
        = thenP (TPromise_join
                   (uninstallExtension (ext_id extension)
                    # map (\<lambda>d. doUninstall env d)
                        (filterDependents env extension dependencies installed)))
            (\<lambda>_. TPromise_as ()) s
      \<and> (\<forall>e. fst (uninstallWithDependencies env extension dependencies installed s)
               \<noteq> Inl (Rejected e)))
   \<and> (blocking_dependents env extension dependencies installed = [d0] \<longrightarrow>
        uninstallWithDependencies env extension dependencies installed s
          = (Inl (Rejected (new_Error
               (singleDependentError (displayName_or_name (manifest extension))
                  (displayName_or_name (manifest d0))))), s))
   \<and> (blocking_dependents env extension dependencies installed = [d0, d1] \<longrightarrow>
        uninstallWithDependencies env extension dependencies installed s
          = (Inl (Rejected (new_Error
               (twoDependentsError (displayName_or_name (manifest extension))
                  (displayName_or_name (manifest d0)) (displayName_or_name (manifest d1))))), s))
   \<and> (blocking_dependents env extension dependencies installed = d0 # d1 # d2 # ds \<longrightarrow>
        uninstallWithDependencies env extension dependencies installed s
          = (Inl (Rejected (new_Error
               (multipleDependentsError (displayName_or_name (manifest extension))
                  (displayName_or_name (manifest d0)) (displayName_or_name (manifest d1))))), s))
   \<and> set (blocking_dependents env extension dependencies installed)
       = {e \<in> set installed. depends_on env e extension \<and> e \<noteq> extension
            \<and> e \<notin> set (filterDependents env extension dependencies installed)}"
proof (intro conjI impI allI)
  assume none: "blocking_dependents env extension dependencies installed = []"
  then show run: "uninstallWithDependencies env extension dependencies installed s
        = thenP (TPromise_join
                   (uninstallExtension (ext_id extension)
                    # map (\<lambda>d. doUninstall env d)
                        (filterDependents env extension dependencies installed)))
            (\<lambda>_. TPromise_as ()) s"
    by (simp add: uninstallWithDependencies_def Let_def)
  fix e
  show "fst (uninstallWithDependencies env extension dependencies installed s) \<noteq> Inl (Rejected e)"
    unfolding run by (rule thenP_unit_not_Rejected) (rule TPromise_join_not_Rejected)
next
  assume "blocking_dependents env extension dependencies installed = [d0]"
  then show "uninstallWithDependencies env extension dependencies installed s
          = (Inl (Rejected (new_Error
               (singleDependentError (displayName_or_name (manifest extension))
                  (displayName_or_name (manifest d0))))), s)"
    by (simp add: uninstallWithDependencies_def Let_def TPromise_wrapError_def)
next
  assume "blocking_dependents env extension dependencies installed = [d0, d1]"
  then show "uninstallWithDependencies env extension dependencies installed s
          = (Inl (Rejected (new_Error
               (twoDependentsError (displayName_or_name (manifest extension))
                  (displayName_or_name (manifest d0)) (displayName_or_name (manifest d1))))), s)"
    by (simp add: uninstallWithDependencies_def Let_def TPromise_wrapError_def)
next
  assume "blocking_dependents env extension dependencies installed = d0 # d1 # d2 # ds"
  then show "uninstallWithDependencies env extension dependencies installed s
          = (Inl (Rejected (new_Error
               (multipleDependentsError (displayName_or_name (manifest extension))
                  (displayName_or_name (manifest d0)) (displayName_or_name (manifest d1))))), s)"
    by (simp add: uninstallWithDependencies_def Let_def TPromise_wrapError_def)
next
  show "set (blocking_dependents env extension dependencies installed)
       = {e \<in> set installed. depends_on env e extension \<and> e \<noteq> extension
            \<and> e \<notin> set (filterDependents env extension dependencies installed)}"
    by (auto simp: blocking_dependents_def Let_def getDependents_eq)
qed

theorem uninstall_blocked_by_dependents_witness:
  "uninstallWithDependencies example_env (example_local ''a'' ''1.0.0'' None) []
      [example_local ''a'' ''1.0.0'' None, example_local ''b'' ''1.0.0'' (Some [''pub.a''])]
      empty_state
     = (Inl (Rejected (new_Error
          (''Cannot uninstall extension '' @ [CHR 0x27] @ ''a'' @ [CHR 0x27] @ ''. Extension ''
             @ [CHR 0x27] @ ''b'' @ [CHR 0x27] @ '' depends on this.''))), empty_state)
   \<and> uninstallWithDependencies example_env (example_local ''a'' ''1.0.0'' None) []
      [example_local ''a'' ''1.0.0'' None, example_local ''b'' ''1.0.0'' (Some [''pub.a'']),
       example_local ''c'' ''1.0.0'' (Some [''pub.a''])]
      empty_state
     = (Inl (Rejected (new_Error
          (''Cannot uninstall extension '' @ [CHR 0x27] @ ''a'' @ [CHR 0x27] @ ''. Extensions ''
             @ [CHR 0x27] @ ''b'' @ [CHR 0x27] @ '' and '' @ [CHR 0x27] @ ''c'' @ [CHR 0x27]
             @ '' depend on this.''))), empty_state)
   \<and> uninstallWithDependencies example_env (example_local ''a'' ''1.0.0'' None) []
      [example_local ''a'' ''1.0.0'' None, example_local ''b'' ''1.0.0'' (Some [''pub.a'']),
       example_local ''c'' ''1.0.0'' (Some [''pub.a'']), example_local ''d'' ''1.0.0'' (Some [''pub.a''])]
      empty_state
     = (Inl (Rejected (new_Error
          (''Cannot uninstall extension '' @ [CHR 0x27] @ ''a'' @ [CHR 0x27] @ ''. Extensions ''
             @ [CHR 0x27] @ ''b'' @ [CHR 0x27] @ '', '' @ [CHR 0x27] @ ''c'' @ [CHR 0x27]
             @ '' and others depend on this.''))), empty_state)
   \<and> uninstallWithDependencies example_env (example_local ''b'' ''1.0.0'' None) []
      [example_local ''b'' ''1.0.0'' None] installed_b
     = (Inr (), empty_state)"
proof -
  let ?a = "example_local ''a'' ''1.0.0'' None"
  let ?b = "example_local ''b'' ''1.0.0'' (Some [''pub.a''])"
  let ?c = "example_local ''c'' ''1.0.0'' (Some [''pub.a''])"
  let ?d = "example_local ''d'' ''1.0.0'' (Some [''pub.a''])"
  let ?solo = "example_local ''b'' ''1.0.0'' None"
  have fd: "filterDependents example_env e [] installed = []" for e installed
    by (simp add: filterDependents_def filterDependents_loop.simps)
  have b1: "blocking_dependents example_env ?a [] [?a, ?b] = [?b]"
    by (simp add: blocking_dependents_def fd getDependents_eq example_depends_on)
  have b2: "blocking_dependents example_env ?a [] [?a, ?b, ?c] = [?b, ?c]"
    by (simp add: blocking_dependents_def fd getDependents_eq example_depends_on)
  have b3: "blocking_dependents example_env ?a [] [?a, ?b, ?c, ?d] = [?b, ?c, ?d]"
    by (simp add: blocking_dependents_def fd getDependents_eq example_depends_on)
  have solo: "blocking_dependents example_env ?solo [] [?solo] = []"
    by (simp add: blocking_dependents_def fd getDependents_eq example_depends_on)
  have names: "displayName_or_name (manifest (example_local n v deps)) = n" for n v deps
    by (simp add: displayName_or_name_def example_local_def example_manifest_def)
  from uninstall_blocked_by_dependents [of example_env ?a "[]" "[?a, ?b]" empty_state ?b] b1
  have one: "uninstallWithDependencies example_env ?a [] [?a, ?b] empty_state
          = (Inl (Rejected (new_Error (singleDependentError ''a'' ''b''))), empty_state)"
    by (simp add: names)
  from uninstall_blocked_by_dependents [of example_env ?a "[]" "[?a, ?b, ?c]" empty_state ?b ?c] b2
  have two: "uninstallWithDependencies example_env ?a [] [?a, ?b, ?c] empty_state
          = (Inl (Rejected (new_Error (twoDependentsError ''a'' ''b'' ''c''))), empty_state)"
    by (simp add: names)
  from uninstall_blocked_by_dependents
         [of example_env ?a "[]" "[?a, ?b, ?c, ?d]" empty_state ?b ?c ?d "[]"] b3
  have three: "uninstallWithDependencies example_env ?a [] [?a, ?b, ?c, ?d] empty_state
          = (Inl (Rejected (new_Error (multipleDependentsError ''a'' ''b'' ''c''))), empty_state)"
    by (simp add: names)
  from uninstall_blocked_by_dependents [of example_env ?solo "[]" "[?solo]" installed_b] solo
  have "uninstallWithDependencies example_env ?solo [] [?solo] installed_b
          = thenP (TPromise_join [uninstallExtension (ext_id ?solo)]) (\<lambda>_. TPromise_as ()) installed_b"
    by (simp add: fd)
  then have none: "uninstallWithDependencies example_env ?solo [] [?solo] installed_b = (Inr (), empty_state)"
    by (simp add: promise_defs fs_defs install_defs example_defs withObsoleteExtensions_def
        withObsoleteExtensions_read_def withObsoleteExtensions_persist_def)
  show ?thesis
    using one two three none
    by (simp add: singleDependentError_def twoDependentsError_def multipleDependentsError_def)
qed


subsection \<open>The dependencies to install\<close>

lemma filterDependenciesToInstall_filter:
  "(\<lambda>d. if uuid extension = uuid d then False
         else (let extensionId = getLocalExtensionIdFromGallery env d (gallery_version d)
               in list_all (\<lambda>local. ext_id local \<noteq> extensionId) local))
   = to_install env extension local"
  by (force simp: to_install_def fun_eq_iff list_all_iff)

text \<open>
  C8. For a registry install, the dependencies to install are those the registry
  lists without the requested extension itself (the same \<^verbatim>\<open>uuid\<close>) and without every
  dependency whose local identifier is that of an extension \<open>getInstalled\<close> reports, in
  the order of the registry's list; and the list \<open>collectExtensionsToInstall\<close> completes
  with is the compatible version of the target followed by these dependencies.
\<close>

theorem dependencies_to_install:
  "(getInstalled env None s = (Inr local, s') \<longrightarrow>
      filterDependenciesToInstall env extension dependencies s
        = (Inr (filter (to_install env extension local) dependencies), s'))
   \<and> (collectExtensionsToInstall env extension s = (Inr extensionsToInstall, s'') \<longrightarrow>
        (\<exists>extensionToInstall allDependencies installed.
           loadCompatibleVersion env extension = Inr extensionToInstall
           \<and> getAllDependencies env extension = Inr allDependencies
           \<and> getInstalled env None s = (Inr installed, s'')
           \<and> extensionsToInstall
               = extensionToInstall # filter (to_install env extension installed) allDependencies))"
proof (intro conjI impI)
  assume "getInstalled env None s = (Inr local, s')"
  then show "filterDependenciesToInstall env extension dependencies s
        = (Inr (filter (to_install env extension local) dependencies), s')"
    by (simp add: filterDependenciesToInstall_def thenP_Inr filterDependenciesToInstall_filter
        TPromise_as_def)
next
  assume run: "collectExtensionsToInstall env extension s = (Inr extensionsToInstall, s'')"
  then obtain extensionToInstall allDependencies dependenciesToInstall where
    load: "loadCompatibleVersion env extension = Inr extensionToInstall"
    and deps: "getAllDependencies env extension = Inr allDependencies"
    and filt: "filterDependenciesToInstall env extension allDependencies s
                 = (Inr dependenciesToInstall, s'')"
    and res: "extensionsToInstall = extensionToInstall # dependenciesToInstall"
    by (auto simp: collectExtensionsToInstall_def thenP_eq_Inr call_eq TPromise_as_eq)
  from filt obtain installed where
    inst: "getInstalled env None s = (Inr installed, s'')"
    and d: "dependenciesToInstall = filter (to_install env extension installed) allDependencies"
    by (auto simp: filterDependenciesToInstall_def thenP_eq_Inr TPromise_as_eq
        filterDependenciesToInstall_filter)
  show "\<exists>extensionToInstall allDependencies installed.
           loadCompatibleVersion env extension = Inr extensionToInstall
           \<and> getAllDependencies env extension = Inr allDependencies
           \<and> getInstalled env None s = (Inr installed, s'')
           \<and> extensionsToInstall
               = extensionToInstall # filter (to_install env extension installed) allDependencies"
    using load deps inst d res by blast
qed

theorem dependencies_to_install_witness:
  "getInstalled example_env None installed_b
     = (Inr [example_local ''b'' ''1.0.0'' None], installed_b)
   \<and> filterDependenciesToInstall example_env (example_gallery ''a'' ''1.0.0'')
        [example_gallery ''a'' ''1.0.0'', example_gallery ''b'' ''1.0.0'', example_gallery ''c'' ''1.0.0'']
        installed_b
     = (Inr [example_gallery ''c'' ''1.0.0''], installed_b)
   \<and> collectExtensionsToInstall
        (example_env\<lparr>getAllDependencies :=
           \<lambda>_. Inr [example_gallery ''c'' ''1.0.0'', example_gallery ''b'' ''1.0.0'',
                     example_gallery ''a'' ''1.0.0'']\<rparr>)
        (example_gallery ''a'' ''1.0.0'') installed_b
     = (Inr [example_gallery ''a'' ''1.0.0'', example_gallery ''c'' ''1.0.0''], installed_b)"
proof -
  let ?a = "example_gallery ''a'' ''1.0.0''"
  let ?b = "example_gallery ''b'' ''1.0.0''"
  let ?c = "example_gallery ''c'' ''1.0.0''"
  let ?env = "example_env\<lparr>getAllDependencies := \<lambda>_. Inr [?c, ?b, ?a]\<rparr>"
  have scan: "getInstalled example_env None installed_b
      = (Inr [example_local ''b'' ''1.0.0'' None], installed_b)"
    by (simp add: scan_defs promise_defs fs_defs example_defs)
  have collect: "collectExtensionsToInstall ?env ?a installed_b = (Inr [?a, ?c], installed_b)"
    by (simp add: collectExtensionsToInstall_def filterDependenciesToInstall_def scan_defs
        promise_defs fs_defs example_defs)
  from dependencies_to_install
         [of example_env installed_b "[example_local ''b'' ''1.0.0'' None]" installed_b ?a
             "[?a, ?b, ?c]" "[?a]" installed_b] scan
  have filt: "filterDependenciesToInstall example_env ?a [?a, ?b, ?c] installed_b
     = (Inr (filter (to_install example_env ?a [example_local ''b'' ''1.0.0'' None]) [?a, ?b, ?c]),
        installed_b)"
    by simp
  from dependencies_to_install
         [of ?env installed_b "[example_local ''b'' ''1.0.0'' None]" installed_b ?a
             "[?c, ?b, ?a]" "[?a, ?c]" installed_b] collect
  have "\<exists>extensionToInstall allDependencies installed.
           loadCompatibleVersion ?env ?a = Inr extensionToInstall
           \<and> getAllDependencies ?env ?a = Inr allDependencies
           \<and> getInstalled ?env None installed_b = (Inr installed, installed_b)
           \<and> [?a, ?c] = extensionToInstall # filter (to_install ?env ?a installed) allDependencies"
    by blast
  then have "[?a, ?c]
      = ?a # filter (to_install ?env ?a [example_local ''b'' ''1.0.0'' None]) [?c, ?b, ?a]"
    using scan by (simp add: scan_defs promise_defs fs_defs example_defs)
  then show ?thesis
    using scan filt collect by (simp add: to_install_def example_defs)
qed


subsection \<open>One record for each identifier\<close>

lemma groupBy_snoc:
  "groupBy (xs @ [x]) f
     = AList.update (f x)
         ((case map_of (groupBy xs f) (f x) of None \<Rightarrow> [] | Some g \<Rightarrow> g) @ [x])
         (groupBy xs f)"
  by (simp add: groupBy_def)

lemma groupBy_Nil [simp]: "groupBy [] f = []"
  by (simp add: groupBy_def)

lemma map_of_groupBy:
  "map_of (groupBy xs f) k
     = (if k \<in> f ` set xs then Some (filter (\<lambda>x. f x = k) xs) else None)"
proof (induction xs arbitrary: k rule: rev_induct)
  case Nil
  then show ?case by simp
next
  case (snoc x xs)
  let ?G = "groupBy xs f"
  have prefix: "(case map_of ?G (f x) of None \<Rightarrow> [] | Some g \<Rightarrow> g) = filter (\<lambda>y. f y = f x) xs"
  proof (cases "f x \<in> f ` set xs")
    case True
    then show ?thesis by (simp add: snoc)
  next
    case False
    then have "filter (\<lambda>y. f y = f x) xs = []"
      unfolding filter_empty_conv by (metis imageI)
    then show ?thesis using False by (simp add: snoc)
  qed
  show ?case
  proof (cases "k = f x")
    case True
    then show ?thesis by (simp add: groupBy_snoc update_conv' prefix)
  next
    case False
    then have "map_of (groupBy (xs @ [x]) f) k = map_of ?G k"
      by (simp add: groupBy_snoc update_conv')
    then show ?thesis using False by (auto simp: snoc)
  qed
qed

lemma distinct_groupBy: "distinct (map fst (groupBy xs f))"
  by (induction xs rule: rev_induct) (simp_all add: groupBy_snoc distinct_update)

lemma groupBy_member:
  "(k, g) \<in> set (groupBy xs f) \<longleftrightarrow> k \<in> f ` set xs \<and> g = filter (\<lambda>x. f x = k) xs"
proof -
  have "(k, g) \<in> set (groupBy xs f) \<longleftrightarrow> map_of (groupBy xs f) k = Some g"
    using distinct_groupBy [of xs f] by simp
  then show ?thesis by (auto simp: map_of_groupBy)
qed

lemma sort_insert_set:
  "sort_insert compare x ys = Inr zs \<Longrightarrow> set zs = insert x (set ys)"
proof (induction ys arbitrary: zs)
  case Nil
  then show ?case by auto
next
  case (Cons y ys)
  from Cons.prems obtain c where c: "compare x y = Inr c"
    by (cases "compare x y") simp_all
  show ?case
  proof (cases "c \<le> 0")
    case True
    then show ?thesis using Cons.prems c by auto
  next
    case False
    then obtain zs' where zs': "sort_insert compare x ys = Inr zs'" and zs: "zs = y # zs'"
      using Cons.prems c by (cases "sort_insert compare x ys") simp_all
    from Cons.IH [OF zs'] show ?thesis by (auto simp: zs)
  qed
qed

lemma semver_rcompare_Inr:
  "semver_rcompare env (version (manifest a)) (version (manifest b)) = Inr c \<Longrightarrow>
     (c \<le> 0 \<longrightarrow> version_le env b a) \<and> (0 < c \<longrightarrow> version_le env a b)"
  by (auto simp: semver_rcompare_def version_le_def split: option.splits if_splits)

lemma version_le_trans: "version_le env a b \<Longrightarrow> version_le env b c \<Longrightarrow> version_le env a c"
  by (auto simp: version_le_def split: option.splits)

lemma sort_insert_head:
  assumes "head_is_highest env ys"
    and "sort_insert (\<lambda>a b. semver_rcompare env (version (manifest a)) (version (manifest b))) x ys
           = Inr zs"
  shows "head_is_highest env zs"
proof (cases ys)
  case Nil
  then show ?thesis using assms by (auto simp: head_is_highest_def)
next
  case (Cons y ys')
  let ?cmp = "\<lambda>a b. semver_rcompare env (version (manifest a)) (version (manifest b))"
  from assms(2) Cons obtain c where c: "?cmp x y = Inr c"
    by (auto split: sum.splits)
  show ?thesis
  proof (cases "c \<le> 0")
    case True
    then have zs: "zs = x # y # ys'" using assms(2) Cons c by simp
    from semver_rcompare_Inr [OF c] True have yx: "version_le env y x" by simp
    have "z = x \<or> version_le env z x" if "z \<in> set zs" for z
    proof -
      from that zs consider "z = x" | "z \<in> set ys" by (auto simp: Cons)
      then show ?thesis
      proof cases
        case 1
        then show ?thesis by simp
      next
        case 2
        then have "z = y \<or> version_le env z y"
          using assms(1) unfolding head_is_highest_def Cons by auto
        then show ?thesis using yx version_le_trans by blast
      qed
    qed
    then show ?thesis by (simp add: head_is_highest_def zs)
  next
    case False
    then obtain zs' where zs': "sort_insert ?cmp x ys' = Inr zs'" and zs: "zs = y # zs'"
      using assms(2) Cons c by (auto split: sum.splits)
    from semver_rcompare_Inr [OF c] False have xy: "version_le env x y" by simp
    have "set zs' = insert x (set ys')" using zs' by (rule sort_insert_set)
    have "z = y \<or> version_le env z y" if "z \<in> set zs" for z
    proof -
      from that zs \<open>set zs' = insert x (set ys')\<close>
      consider "z = y" | "z = x" | "z \<in> set ys'" by auto
      then show ?thesis
      proof cases
        case 1
        then show ?thesis by simp
      next
        case 2
        then show ?thesis using xy by simp
      next
        case 3
        then have "z \<in> set ys" by (simp add: Cons)
        then have "z = hd ys \<or> version_le env z (hd ys)"
          using assms(1) unfolding head_is_highest_def by blast
        then show ?thesis by (simp add: Cons)
      qed
    qed
    then show ?thesis by (simp add: head_is_highest_def zs)
  qed
qed

lemma Array_sort_props:
  "Array_sort (\<lambda>a b. semver_rcompare env (version (manifest a)) (version (manifest b))) xs = Inr ys
   \<Longrightarrow> set ys = set xs \<and> head_is_highest env ys"
proof (induction xs arbitrary: ys)
  case Nil
  then show ?case by (simp add: head_is_highest_def)
next
  case (Cons x xs)
  then obtain ys' where ys': "Array_sort (\<lambda>a b. semver_rcompare env (version (manifest a)) (version (manifest b))) xs = Inr ys'"
    and ins: "sort_insert (\<lambda>a b. semver_rcompare env (version (manifest a)) (version (manifest b))) x ys' = Inr ys"
    by (auto split: sum.splits)
  from Cons.IH [OF ys'] have "set ys' = set xs" "head_is_highest env ys'" by simp_all
  then show ?case using sort_insert_set [OF ins] sort_insert_head [OF _ ins] by simp
qed

lemma first_of_each_props:
  "first_of_each (\<lambda>a b. semver_rcompare env (version (manifest a)) (version (manifest b))) ps = Inr firsts
   \<Longrightarrow> \<forall>p \<in> set ps. p \<noteq> []
   \<Longrightarrow> list_all2 (\<lambda>p r. r \<in> set p \<and> (\<forall>z \<in> set p. z = r \<or> version_le env z r)) ps firsts"
proof (induction ps arbitrary: firsts)
  case Nil
  then show ?case by simp
next
  case (Cons p ps)
  let ?cmp = "\<lambda>a b. semver_rcompare env (version (manifest a)) (version (manifest b))"
  from Cons.prems(1) obtain sorted_p rest where
    sp: "Array_sort ?cmp p = Inr sorted_p" and rest: "first_of_each ?cmp ps = Inr rest"
    and firsts: "firsts = hd sorted_p # rest"
    by (auto split: sum.splits)
  from Array_sort_props [OF sp] have set_eq: "set sorted_p = set p" and hh: "head_is_highest env sorted_p"
    by simp_all
  from Cons.prems(2) set_eq have "sorted_p \<noteq> []" by auto
  then have "hd sorted_p \<in> set p" using set_eq by (metis hd_in_set)
  moreover have "\<forall>z \<in> set p. z = hd sorted_p \<or> version_le env z (hd sorted_p)"
    using hh set_eq by (simp add: head_is_highest_def)
  moreover have "list_all2 (\<lambda>p r. r \<in> set p \<and> (\<forall>z \<in> set p. z = r \<or> version_le env z r)) ps rest"
    using Cons.IH [OF rest] Cons.prems(2) by simp
  ultimately show ?case by (simp add: firsts)
qed


lemma groupBy_nonempty: "(k, g) \<in> set (groupBy xs f) \<Longrightarrow> g \<noteq> []"
proof -
  assume "(k, g) \<in> set (groupBy xs f)"
  then have "k \<in> f ` set xs" "g = filter (\<lambda>x. f x = k) xs" by (simp_all add: groupBy_member)
  then show ?thesis by (auto simp: filter_empty_conv)
qed

lemma firsts_of_groups:
  assumes "list_all2 (\<lambda>p r. r \<in> set p \<and> (\<forall>z \<in> set p. z = r \<or> version_le env z r)) (map snd G) result"
    and "\<And>k g. (k, g) \<in> set G \<Longrightarrow> g = filter (\<lambda>x. f x = k) xs"
  shows "map f result = map fst G
         \<and> set result \<subseteq> set xs
         \<and> (\<forall>r \<in> set result. \<forall>e \<in> set xs. f e = f r \<longrightarrow> e = r \<or> version_le env e r)"
  using assms
proof (induction G arbitrary: result)
  case Nil
  then show ?case by simp
next
  case (Cons kg G)
  obtain k g where kg: "kg = (k, g)" by (cases kg)
  from Cons.prems(1) obtain r rest where result: "result = r # rest"
    and r: "r \<in> set g" "\<forall>z \<in> set g. z = r \<or> version_le env z r"
    and rest: "list_all2 (\<lambda>p r. r \<in> set p \<and> (\<forall>z \<in> set p. z = r \<or> version_le env z r)) (map snd G) rest"
    by (auto simp: kg list_all2_Cons1)
  have g: "g = filter (\<lambda>x. f x = k) xs" using Cons.prems(2) [of k g] by (simp add: kg)
  have IH: "map f rest = map fst G \<and> set rest \<subseteq> set xs
         \<and> (\<forall>r \<in> set rest. \<forall>e \<in> set xs. f e = f r \<longrightarrow> e = r \<or> version_le env e r)"
    using Cons.IH [OF rest] Cons.prems(2) by simp
  have fr: "f r = k" "r \<in> set xs" using r(1) g by simp_all
  have "e = r \<or> version_le env e r" if "e \<in> set xs" "f e = f r" for e
  proof -
    from that fr have "e \<in> set g" by (simp add: g)
    then show ?thesis using r(2) by blast
  qed
  then show ?case using IH fr by (simp add: result kg)
qed

text \<open>
  C3. When the scan of the user extensions completes, its result holds exactly
  one record for each canonical identifier among the records read from the directories:
  the identifiers of the result are pairwise different, every record of the result is
  one of the records read, every identifier read is there, and every record read with
  the identifier of a record of the result is that record or has a version that does
  not come after its version. The directories on disk are as before: the records
  dropped are not deleted.
\<close>

theorem scanUserExtensions_one_per_identifier:
  "scanUserExtensions env s = (Inr result, s') \<longrightarrow>
     (\<exists>extensions.
        scanExtensions env ExtensionsPath User s = (Inr extensions, s')
        \<and> distinct (map (getGalleryExtensionIdFromLocal env) result)
        \<and> set result \<subseteq> set extensions
        \<and> getGalleryExtensionIdFromLocal env ` set result
            = getGalleryExtensionIdFromLocal env ` set extensions
        \<and> (\<forall>r \<in> set result. \<forall>e \<in> set extensions.
              getGalleryExtensionIdFromLocal env e = getGalleryExtensionIdFromLocal env r
              \<longrightarrow> e = r \<or> version_le env e r))
     \<and> userExtensions s' = userExtensions s"
proof
  let ?gid = "getGalleryExtensionIdFromLocal env"
  let ?cmp = "\<lambda>a b. semver_rcompare env (version (manifest a)) (version (manifest b))"
  assume run: "scanUserExtensions env s = (Inr result, s')"
  then obtain extensions where
    scan: "scanExtensions env ExtensionsPath User s = (Inr extensions, s')"
    and firsts: "first_of_each ?cmp (values_of (groupBy extensions ?gid)) = Inr result"
    by (auto simp: scanUserExtensions_def thenP_eq_Inr call_eq Let_def)
  let ?G = "groupBy extensions ?gid"
  have nonempty: "\<forall>p \<in> set (map snd ?G). p \<noteq> []"
    using groupBy_nonempty [of _ _ extensions ?gid] by auto
  have all2: "list_all2 (\<lambda>p r. r \<in> set p \<and> (\<forall>z \<in> set p. z = r \<or> version_le env z r))
      (map snd ?G) result"
    using first_of_each_props [of env "map snd ?G" result] firsts nonempty
    by (simp add: values_of_def)
  have props: "map ?gid result = map fst ?G \<and> set result \<subseteq> set extensions
      \<and> (\<forall>r \<in> set result. \<forall>e \<in> set extensions. ?gid e = ?gid r \<longrightarrow> e = r \<or> version_le env e r)"
    by (rule firsts_of_groups [OF all2]) (simp add: groupBy_member)
  have keys: "fst ` set ?G = ?gid ` set extensions"
  proof
    show "fst ` set ?G \<subseteq> ?gid ` set extensions"
      by (auto simp: groupBy_member)
    show "?gid ` set extensions \<subseteq> fst ` set ?G"
    proof
      fix k assume "k \<in> ?gid ` set extensions"
      then have "(k, filter (\<lambda>x. ?gid x = k) extensions) \<in> set ?G"
        by (simp add: groupBy_member)
      then show "k \<in> fst ` set ?G" by force
    qed
  qed
  have "?gid ` set result = set (map ?gid result)" by simp
  also have "\<dots> = fst ` set ?G" using props by simp
  finally have image: "?gid ` set result = ?gid ` set extensions" using keys by simp
  have dist: "distinct (map ?gid result)" using props distinct_groupBy [of extensions ?gid] by simp
  from scanExtensions_Inr [OF scan] have "userExtensions s' = userExtensions s" by simp
  then show "(\<exists>extensions.
        scanExtensions env ExtensionsPath User s = (Inr extensions, s')
        \<and> distinct (map ?gid result)
        \<and> set result \<subseteq> set extensions
        \<and> ?gid ` set result = ?gid ` set extensions
        \<and> (\<forall>r \<in> set result. \<forall>e \<in> set extensions. ?gid e = ?gid r \<longrightarrow> e = r \<or> version_le env e r))
     \<and> userExtensions s' = userExtensions s"
    using scan dist props image by blast
qed

theorem scanUserExtensions_one_per_identifier_witness:
  "scanExtensions example_env ExtensionsPath User two_versions
     = (Inr [example_local ''x'' ''1.0.0'' None, example_local ''x'' ''2.0.0'' None], two_versions)
   \<and> scanUserExtensions example_env two_versions
     = (Inr [example_local ''x'' ''2.0.0'' None], two_versions)
   \<and> distinct (map (getGalleryExtensionIdFromLocal example_env) [example_local ''x'' ''2.0.0'' None])
   \<and> version_le example_env (example_local ''x'' ''1.0.0'' None) (example_local ''x'' ''2.0.0'' None)"
proof -
  have run: "scanUserExtensions example_env two_versions
     = (Inr [example_local ''x'' ''2.0.0'' None], two_versions)"
    by (simp add: scan_defs promise_defs fs_defs example_defs)
  have scan: "scanExtensions example_env ExtensionsPath User two_versions
     = (Inr [example_local ''x'' ''1.0.0'' None, example_local ''x'' ''2.0.0'' None], two_versions)"
    by (simp add: scan_defs promise_defs fs_defs example_defs)
  from scanUserExtensions_one_per_identifier
         [of example_env two_versions "[example_local ''x'' ''2.0.0'' None]" two_versions] run scan
  have "distinct (map (getGalleryExtensionIdFromLocal example_env) [example_local ''x'' ''2.0.0'' None])"
    and "\<forall>e \<in> set [example_local ''x'' ''1.0.0'' None, example_local ''x'' ''2.0.0'' None].
           getGalleryExtensionIdFromLocal example_env e
             = getGalleryExtensionIdFromLocal example_env (example_local ''x'' ''2.0.0'' None)
           \<longrightarrow> e = example_local ''x'' ''2.0.0'' None
               \<or> version_le example_env e (example_local ''x'' ''2.0.0'' None)"
    by auto
  then have "version_le example_env (example_local ''x'' ''1.0.0'' None) (example_local ''x'' ''2.0.0'' None)"
    by (simp add: example_defs)
  then show ?thesis using run scan by simp
qed


subsection \<open>Installing an identifier that is marked obsolete\<close>

text \<open>
  C2. Let the manifest of a package derive the local identifier \<open>id\<close>. If \<open>id\<close> is
  marked in the Obsolete Index, \<open>install\<close> of the package is rejected with the error
  that asks for a restart, and the state is the one before: no install event was
  fired, no directory was touched, and the index file holds what it held. After \<open>id\<close>
  was unmarked the same install proceeds: the install event is fired and
  \<open>installExtension\<close> is run on the package, its outcome fired as the second event.
\<close>

theorem install_obsolete_restart_required:
  "validate env zp s = (Inr m, s0) \<longrightarrow>
     (obsoleteFile s = File (Json obsolete)
        \<and> map_of obsolete (getLocalExtensionIdFromManifest env m) = Some True \<longrightarrow>
          install env zp s
            = (Inl (Rejected (new_Error (restartCodeLocal (displayName_or_name m)))), s))
     \<and> (unsetObsolete (getLocalExtensionIdFromManifest env m) s = (Inr (), s1) \<longrightarrow>
          install env zp s1
            = thenP2
                (installExtension env
                   \<lparr>zipPath = zp, installable_id = getLocalExtensionIdFromManifest env m,
                    installable_metadata = None\<rparr>)
                (\<lambda>local. fireP (DidInstallExtension (getLocalExtensionIdFromManifest env m)
                                    (FromZip zp) (DidLocal (Some local))))
                (\<lambda>error. thenP (fireP (DidInstallExtension (getLocalExtensionIdFromManifest env m)
                                          (FromZip zp) (DidError error)))
                            (\<lambda>_. TPromise_wrapError error))
                (fire (InstallExtension (getLocalExtensionIdFromManifest env m) (FromZip zp)) s1))"
proof (intro impI conjI)
  let ?id = "getLocalExtensionIdFromManifest env m"
  assume v: "validate env zp s = (Inr m, s0)"
  {
    assume "obsoleteFile s = File (Json obsolete) \<and> map_of obsolete ?id = Some True"
    then have m: "readable s" "index_of s = obsolete" "normalized s = s" "map_of obsolete ?id = Some True"
      using marked_file [of s obsolete ?id] by simp_all
    from validate_Inr [OF v] have v': "validate env zp s = (Inr m, s)" by simp
    show "install env zp s
            = (Inl (Rejected (new_Error (restartCodeLocal (displayName_or_name m)))), s)"
      by (simp add: install_def thenP_def v' Let_def isObsolete_readable m
          TPromise_wrapError_def)
  }
  {
    assume u: "unsetObsolete ?id s = (Inr (), s1)"
    then have rd: "readable s"
      unfolding unsetObsolete_def by (rule withObsoleteExtensions_Inr_readable)
    then have s1: "s1 = s\<lparr>obsoleteFile := persisted (AList.delete ?id (index_of s))\<rparr>"
      using u by (simp add: unsetObsolete_readable)
    have rd1: "readable s1" and idx1: "index_of s1 = AList.delete ?id (index_of s)"
      and n1: "normalized s1 = s1"
      by (simp_all add: s1 normalized_def)
    have not_marked: "map_of (index_of s1) ?id \<noteq> Some True"
      by (simp add: idx1 delete_conv')
    from validate_Inr [OF v] have v1: "validate env zp s1 = (Inr m, s1)" by simp
    show "install env zp s1
            = thenP2
                (installExtension env
                   \<lparr>zipPath = zp, installable_id = ?id, installable_metadata = None\<rparr>)
                (\<lambda>local. fireP (DidInstallExtension ?id (FromZip zp) (DidLocal (Some local))))
                (\<lambda>error. thenP (fireP (DidInstallExtension ?id (FromZip zp) (DidError error)))
                            (\<lambda>_. TPromise_wrapError error))
                (fire (InstallExtension ?id (FromZip zp)) s1)"
      using not_marked
      by (simp add: install_def thenP_def v1 Let_def isObsolete_readable [OF rd1] n1
          fireP_def)
  }
qed


theorem install_obsolete_restart_required_witness:
  "validate example_env ''/tmp/uuid-a'' marked_a = (Inr (example_manifest ''a'' ''1.0.0'' None), marked_a)
   \<and> install example_env ''/tmp/uuid-a'' marked_a
       = (Inl (Rejected (new_Error ''Please restart Code before reinstalling a.'')), marked_a)
   \<and> unsetObsolete ''pub.a-1.0.0'' marked_a = (Inr (), empty_state)
   \<and> install example_env ''/tmp/uuid-a'' empty_state
       = (Inr (),
          empty_state
            \<lparr>userExtensions := [(''pub.a-1.0.0'', example_dir ''a'' ''1.0.0'' None)],
             events := [InstallExtension ''pub.a-1.0.0'' (FromZip ''/tmp/uuid-a''),
                        DidInstallExtension ''pub.a-1.0.0'' (FromZip ''/tmp/uuid-a'')
                          (DidLocal (Some (example_local ''a'' ''1.0.0'' None)))]\<rparr>)"
proof -
  have v: "validate example_env ''/tmp/uuid-a'' marked_a
      = (Inr (example_manifest ''a'' ''1.0.0'' None), marked_a)"
    by (simp add: validate_def promise_defs fs_defs parseManifest_def example_defs)
  have i: "getLocalExtensionIdFromManifest example_env (example_manifest ''a'' ''1.0.0'' None)
      = ''pub.a-1.0.0''"
    by (simp add: example_defs)
  have u: "unsetObsolete ''pub.a-1.0.0'' marked_a = (Inr (), empty_state)"
    by (simp add: unsetObsolete_def scan_defs promise_defs fs_defs example_defs)
  note inst = install_obsolete_restart_required
    [of example_env "''/tmp/uuid-a''" marked_a "example_manifest ''a'' ''1.0.0'' None" marked_a
        "[(''pub.a-1.0.0'', True)]" empty_state]
  have blocked: "install example_env ''/tmp/uuid-a'' marked_a
       = (Inl (Rejected (new_Error ''Please restart Code before reinstalling a.'')), marked_a)"
    using inst v i
    by (simp add: restartCodeLocal_def displayName_or_name_def example_defs)
  have "install example_env ''/tmp/uuid-a'' empty_state
      = thenP2
          (installExtension example_env
             \<lparr>zipPath = ''/tmp/uuid-a'', installable_id = ''pub.a-1.0.0'', installable_metadata = None\<rparr>)
          (\<lambda>local. fireP (DidInstallExtension ''pub.a-1.0.0'' (FromZip ''/tmp/uuid-a'') (DidLocal (Some local))))
          (\<lambda>error. thenP (fireP (DidInstallExtension ''pub.a-1.0.0'' (FromZip ''/tmp/uuid-a'') (DidError error)))
                      (\<lambda>_. TPromise_wrapError error))
          (fire (InstallExtension ''pub.a-1.0.0'' (FromZip ''/tmp/uuid-a'')) empty_state)"
    using inst v i u by simp
  then have proceeds: "install example_env ''/tmp/uuid-a'' empty_state
       = (Inr (),
          empty_state
            \<lparr>userExtensions := [(''pub.a-1.0.0'', example_dir ''a'' ''1.0.0'' None)],
             events := [InstallExtension ''pub.a-1.0.0'' (FromZip ''/tmp/uuid-a''),
                        DidInstallExtension ''pub.a-1.0.0'' (FromZip ''/tmp/uuid-a'')
                          (DidLocal (Some (example_local ''a'' ''1.0.0'' None)))]\<rparr>)"
    by (simp add: installExtension_def scan_defs promise_defs fs_defs example_defs)
  show ?thesis using v blocked u proceeds by simp
qed


subsection \<open>Rollback of a batch install\<close>





subsection \<open>No access of the index is lost\<close>

text \<open>
  C1. Take any schedule of calls of the index operations (\<open>filterObsolete\<close>,
  \<open>setObsolete\<close>, \<open>unsetObsolete\<close>, \<open>getObsoleteExtensions\<close>) and of file steps, on the
  limiter the service is constructed with. At every moment at most one access is in
  flight. The accesses queued always complete when their file steps are done. And
  when nothing is queued or in flight any more, the outcomes and the state are those
  of the operations of the service performed one after the other in arrival order,
  each from its read to its write before the next begins: no write is lost. In
  particular, when the calls were marks of the identifiers of a list, on an index
  that can be read, every mark has completed and every identifier of the list is
  marked in the mapping that the file holds.
\<close>

theorem limiter_serializes_obsolete_index:
  "interleave sched (obsoleteFileLimiter, s) = (L, s') \<longrightarrow>
     length (runningPromises L) \<le> 1
     \<and> (\<exists>n. quiescent
               (fst (interleave (sched @ replicate n (FileStep 0)) (obsoleteFileLimiter, s))))
     \<and> (quiescent L \<longrightarrow> (completed L, s') = settle (map perform (requests sched)) s)
     \<and> (quiescent L \<and> readable s \<and> requests sched = map SetObsolete ids \<longrightarrow>
            completed L = map (\<lambda>_. Inr Void) ids
            \<and> (\<forall>i \<in> set ids. map_of (index_of s') i = Some True)
            \<and> (ids \<noteq> [] \<longrightarrow> obsoleteFile s' = File (Json (index_of s'))))"
proof
  assume r: "interleave sched (obsoleteFileLimiter, s) = (L, s')"
  have started: "start r (L, s) = (queue (handed r) L, s)" for r and L :: "answer limiter" and s
    by (cases r)
       (simp_all add: filterObsolete_queued_def setObsolete_queued_def unsetObsolete_queued_def
          getObsoleteExtensions_queued_def withObsoleteExtensions_queued_def)
  have new: "single_slot (obsoleteFileLimiter :: answer limiter)"
    "drain (obsoleteFileLimiter :: answer limiter, s) = ([], s)"
    by (simp_all add: single_slot_def drain_def obsoleteFileLimiter_def new_Limiter_def)
  have "single_slot (fst (interleave sched (obsoleteFileLimiter, s)))
      \<and> drain (interleave sched (obsoleteFileLimiter, s))
          = then_sequentially (drain (obsoleteFileLimiter, s)) (map handed (requests sched))"
    using started new(1) by (rule interleave_drain)
  then have slot: "single_slot L"
    and dr: "drain (L, s') = run_sequentially (map handed (requests sched)) s"
    unfolding r new(2) by (simp_all add: then_sequentially_def)
  have one: "length (runningPromises L) \<le> 1" using slot by (simp add: single_slot_def)
  have live: "\<exists>n. quiescent
               (fst (interleave (sched @ replicate n (FileStep 0)) (obsoleteFileLimiter, s)))"
  proof -
    have "quiescent (fst (interleave (replicate (work L) (FileStep 0)) (L, s')))"
      by (rule accesses_complete [OF slot]) simp
    then have "quiescent
        (fst (interleave (sched @ replicate (work L) (FileStep 0)) (obsoleteFileLimiter, s)))"
      unfolding interleave_append r .
    then show ?thesis ..
  qed
  have waited: "perform r = withObsoleteExtensions (handed r)" for r
    by (cases r)
       (simp_all add: filterObsolete_def setObsolete_def unsetObsolete_def
          getObsoleteExtensions_def withObsoleteExtensions_then)
  have performed: "run_sequentially (map handed rs) t = settle (map perform rs) t" for rs t
    by (induction rs arbitrary: t) (simp_all add: waited)
  have seq: "(completed L, s') = settle (map perform (requests sched)) s" if "quiescent L"
    using dr drain_quiescent [OF that, of s'] by (simp add: performed)
  have marks: "completed L = map (\<lambda>_. Inr Void) ids
            \<and> (\<forall>i \<in> set ids. map_of (index_of s') i = Some True)
            \<and> (ids \<noteq> [] \<longrightarrow> obsoleteFile s' = File (Json (index_of s')))"
    if "quiescent L \<and> readable s \<and> requests sched = map SetObsolete ids"
  proof -
    from that have q: "quiescent L" and rd: "readable s"
      and m: "requests sched = map SetObsolete ids"
      by simp_all
    from run_sequentially_marks [OF rd, of ids] obtain t where t:
      "run_sequentially (map (\<lambda>i. handed (SetObsolete i)) ids) s = (map (\<lambda>_. Inr Void) ids, t)"
      "\<forall>k. map_of (index_of t) k = (if k \<in> set ids then Some True else map_of (index_of s) k)"
      "ids \<noteq> [] \<longrightarrow> obsoleteFile t = File (Json (index_of t))"
      by blast
    have "map handed (requests sched) = map (\<lambda>i. handed (SetObsolete i)) ids"
      by (simp add: m comp_def)
    with dr drain_quiescent [OF q, of s'] t(1)
    have "completed L = map (\<lambda>_. Inr Void) ids" "s' = t" by simp_all
    then show ?thesis using t(2,3) by simp
  qed
  show "length (runningPromises L) \<le> 1
     \<and> (\<exists>n. quiescent
               (fst (interleave (sched @ replicate n (FileStep 0)) (obsoleteFileLimiter, s))))
     \<and> (quiescent L \<longrightarrow> (completed L, s') = settle (map perform (requests sched)) s)
     \<and> (quiescent L \<and> readable s \<and> requests sched = map SetObsolete ids \<longrightarrow>
            completed L = map (\<lambda>_. Inr Void) ids
            \<and> (\<forall>i \<in> set ids. map_of (index_of s') i = Some True)
            \<and> (ids \<noteq> [] \<longrightarrow> obsoleteFile s' = File (Json (index_of s'))))"
    using one live seq marks by blast
qed

theorem limiter_serializes_obsolete_index_witness:
  "interleave [Call (SetObsolete ''a''), Call (SetObsolete ''b''),
               FileStep 0, FileStep 0, FileStep 0, FileStep 0] (obsoleteFileLimiter, empty_state)
     = (\<lparr>maxDegreeOfParalellism = 1, outstandingPromises = [], runningPromises = [],
          completed = [Inr Void, Inr Void]\<rparr>,
        empty_state\<lparr>obsoleteFile := File (Json [(''a'', True), (''b'', True)])\<rparr>)
   \<and> readable empty_state
   \<and> settle [perform (SetObsolete ''a''), perform (SetObsolete ''b'')] empty_state
       = ([Inr Void, Inr Void],
          empty_state\<lparr>obsoleteFile := File (Json [(''a'', True), (''b'', True)])\<rparr>)
   \<and> map_of (index_of (empty_state\<lparr>obsoleteFile := File (Json [(''a'', True), (''b'', True)])\<rparr>)) ''a''
       = Some True
   \<and> map_of (index_of (empty_state\<lparr>obsoleteFile := File (Json [(''a'', True), (''b'', True)])\<rparr>)) ''b''
       = Some True
   \<and> interleave [Call (SetObsolete ''a''), Call GetObsoleteExtensions, FileStep 0,
                  Call (UnsetObsolete ''a''), FileStep 0, Call (FilterObsolete [''a'']),
                  FileStep 0, FileStep 0, FileStep 0, FileStep 0, FileStep 0, FileStep 0]
        (obsoleteFileLimiter, empty_state)
       = (\<lparr>maxDegreeOfParalellism = 1, outstandingPromises = [], runningPromises = [],
            completed = [Inr Void, Inr (Index [(''a'', True)]), Inr Void, Inr (Ids [])]\<rparr>,
          empty_state)
   \<and> settle [perform (SetObsolete ''a''), perform GetObsoleteExtensions,
               perform (UnsetObsolete ''a''), perform (FilterObsolete [''a''])] empty_state
       = ([Inr Void, Inr (Index [(''a'', True)]), Inr Void, Inr (Ids [])], empty_state)"
proof -
  let ?mixed = "[Call (SetObsolete ''a''), Call GetObsoleteExtensions, FileStep 0,
                  Call (UnsetObsolete ''a''), FileStep 0, Call (FilterObsolete [''a'']),
                  FileStep 0, FileStep 0, FileStep 0, FileStep 0, FileStep 0, FileStep 0]"
  let ?M = "\<lparr>maxDegreeOfParalellism = 1, outstandingPromises = [], runningPromises = [],
            completed = [Inr Void, Inr (Index [(''a'', True)]), Inr Void, Inr (Ids [])]\<rparr>
            :: answer limiter"
  have mixed: "interleave ?mixed (obsoleteFileLimiter, empty_state) = (?M, empty_state)"
    by (simp add: limiter_defs withObsoleteExtensions_read_def withObsoleteExtensions_persist_def
        promise_defs fs_defs example_defs)
  have qM: "quiescent ?M" by (simp add: quiescent_def)
  from limiter_serializes_obsolete_index [of ?mixed empty_state ?M empty_state "[]"] mixed qM
  have served: "(completed ?M, empty_state) = settle (map perform (requests ?mixed)) empty_state"
    by blast
  let ?sched = "[Call (SetObsolete ''a''), Call (SetObsolete ''b''),
                 FileStep 0, FileStep 0, FileStep 0, FileStep 0]"
  let ?L = "\<lparr>maxDegreeOfParalellism = 1, outstandingPromises = [], runningPromises = [],
          completed = [Inr Void, Inr Void]\<rparr> :: answer limiter"
  let ?s = "empty_state\<lparr>obsoleteFile := File (Json [(''a'', True), (''b'', True)])\<rparr>"
  have r: "interleave ?sched (obsoleteFileLimiter, empty_state) = (?L, ?s)"
    by (simp add: limiter_defs withObsoleteExtensions_read_def withObsoleteExtensions_persist_def
        promise_defs fs_defs example_defs)
  have q: "quiescent ?L" by (simp add: quiescent_def)
  have rd: "readable empty_state" by (simp add: readable_def empty_state_def)
  have m: "requests ?sched = map SetObsolete [''a'', ''b'']"
    by simp
  have p: "settle [perform (SetObsolete ''a''), perform (SetObsolete ''b'')] empty_state
      = ([Inr Void, Inr Void], ?s)"
    by (simp add: setObsolete_def withObsoleteExtensions_def withObsoleteExtensions_read_def
        withObsoleteExtensions_persist_def promise_defs fs_defs example_defs)
  from limiter_serializes_obsolete_index [of ?sched empty_state ?L ?s "[''a'', ''b'']"] r q rd m
  have "(completed ?L, ?s) = settle (map perform (requests ?sched)) empty_state"
    and "\<forall>i \<in> set [''a'', ''b'']. map_of (index_of ?s) i = Some True"
    by blast+
  then show ?thesis using r rd p mixed served by simp
qed


end
